theory Spec2Isabelle
  imports
    Complex_Main
    "HOL-Library.Multiset"
    "HOL-Library.Char_ord"
    "HOL-Library.List_Lexorder"
    "HOL-Library.Product_Lexorder"
begin

section \<open>JavaScript values as the code receives them\<close>

text \<open>
  The normalizer and the cache work on values that come out of \<^verbatim>\<open>res.json()\<close> and
  \<^verbatim>\<open>JSON.parse\<close>, and on what the code builds from them. A value is \<^verbatim>\<open>undefined\<close>,
  \<^verbatim>\<open>null\<close>, a boolean, a number, a string, an array or a plain object. Numbers are
  idealised: a finite number is a rational (no rounding), next to \<^verbatim>\<open>NaN\<close> and the two
  infinities. Strings are lists of code units below 256. An object is the list of its
  properties, read with \<open>map_of\<close>.
\<close>

datatype jsnum = NaN | NegInf | Fin rat | PosInf

datatype jsval =
    JUndefined
  | JNull
  | JBool bool
  | JNum jsnum
  | JStr string
  | JArr "jsval list"
  | JObj "(string \<times> jsval) list"

datatype error = TypeError | SyntaxError | StorageError | NetworkError | HttpError

definition and_then :: "error + 'a \<Rightarrow> ('a \<Rightarrow> error + 'b) \<Rightarrow> error + 'b" where
  "and_then m f = (case m of Inl e \<Rightarrow> Inl e | Inr v \<Rightarrow> f v)"

text \<open>\<^verbatim>\<open>!!v\<close>: the falsy values are undefined, null, false, 0, NaN and the empty string.\<close>

fun truthy :: "jsval \<Rightarrow> bool" where
  "truthy JUndefined = False"
| "truthy JNull = False"
| "truthy (JBool b) = b"
| "truthy (JNum n) = (n \<noteq> NaN \<and> n \<noteq> Fin 0)"
| "truthy (JStr s) = (s \<noteq> [])"
| "truthy (JArr xs) = True"
| "truthy (JObj kvs) = True"

fun nullish :: "jsval \<Rightarrow> bool" where
  "nullish JUndefined = True"
| "nullish JNull = True"
| "nullish v = False"

text \<open>
  \<^verbatim>\<open>v.k\<close> for a property name \<open>k\<close> that no built-in prototype defines (all the names the
  code reads are of this kind): a TypeError on undefined and null, the property or
  undefined on an object, undefined on every other value.
\<close>

fun get :: "jsval \<Rightarrow> string \<Rightarrow> error + jsval" where
  "get JUndefined k = Inl TypeError"
| "get JNull k = Inl TypeError"
| "get (JObj kvs) k = Inr (case map_of kvs k of None \<Rightarrow> JUndefined | Some v \<Rightarrow> v)"
| "get v k = Inr JUndefined"

text \<open>\<^verbatim>\<open>v?.k\<close>: undefined, and no error, where \<open>v\<close> is undefined or null.\<close>

definition opt_get :: "jsval \<Rightarrow> string \<Rightarrow> jsval" where
  "opt_get v k = (case get v k of Inl e \<Rightarrow> JUndefined | Inr x \<Rightarrow> x)"

text \<open>\<^verbatim>\<open>a || b\<close> on values.\<close>

definition js_or :: "jsval \<Rightarrow> jsval \<Rightarrow> jsval" where
  "js_or a b = (if truthy a then a else b)"

text \<open>
  \<^verbatim>\<open>Number(v)\<close>. The conversion of a string (the numeric-literal parser) and of an array
  or object (through \<^verbatim>\<open>toString\<close>/\<^verbatim>\<open>valueOf\<close>, which can throw) is the runtime's; it is
  the parameter \<open>co\<close>.
\<close>

type_synonym coercion = "jsval \<Rightarrow> error + jsnum"

fun ToNumber :: "coercion \<Rightarrow> jsval \<Rightarrow> error + jsnum" where
  "ToNumber co JUndefined = Inr NaN"
| "ToNumber co JNull = Inr (Fin 0)"
| "ToNumber co (JBool b) = Inr (Fin (if b then 1 else 0))"
| "ToNumber co (JNum n) = Inr n"
| "ToNumber co v = co v"

text \<open>
  \<^verbatim>\<open>String.prototype.trim\<close> strips white space and line terminators from both ends; below
  256 these are the code units 9 to 13, 32 and 160.
\<close>

definition is_white :: "char \<Rightarrow> bool" where
  "is_white c = (of_char c \<in> {9, 10, 11, 12, 13, 32, 160 :: nat})"

definition trim :: "string \<Rightarrow> string" where
  "trim s = rev (dropWhile is_white (rev (dropWhile is_white s)))"

section \<open>The stream normalizer\<close>

text \<open>
  \<^verbatim>\<open>(s.f && s.f.amount)\<close>, the guarded read of a nested amount that
  \<^verbatim>\<open>pickFields\<close> uses for \<^verbatim>\<open>average_amount\<close> and \<^verbatim>\<open>last_amount\<close>.
\<close>

definition guarded_amount :: "jsval \<Rightarrow> string \<Rightarrow> error + jsval" where
  "guarded_amount s f =
     and_then (get s f) (\<lambda>a. if truthy a then get a ''amount'' else Inr a)"

text \<open>
  \<^verbatim>\<open>Number((s.average_amount && s.average_amount.amount) ??
            (s.last_amount && s.last_amount.amount) ?? 0)\<close>
\<close>

definition pick_amount :: "coercion \<Rightarrow> jsval \<Rightarrow> error + jsnum" where
  "pick_amount co s =
     and_then (guarded_amount s ''average_amount'') (\<lambda>a1.
       if \<not> nullish a1 then ToNumber co a1
       else and_then (guarded_amount s ''last_amount'') (\<lambda>a2.
         if \<not> nullish a2 then ToNumber co a2 else ToNumber co (JNum (Fin 0))))"

text \<open>
  \<^verbatim>\<open>s.merchant_name && s.merchant_name.trim().length ? s.merchant_name : (s.description || "")\<close>.
  A truthy merchant name that is not a string has no \<^verbatim>\<open>trim\<close> method: the call throws.
\<close>

definition pick_description :: "jsval \<Rightarrow> error + jsval" where
  "pick_description s =
     and_then (get s ''merchant_name'') (\<lambda>m.
       and_then
         (if truthy m
          then (case m of JStr t \<Rightarrow> Inr (length (trim t) \<noteq> 0) | _ \<Rightarrow> Inl TypeError)
          else Inr False)
         (\<lambda>use_name.
            if use_name then Inr m
            else and_then (get s ''description'') (\<lambda>d. Inr (js_or d (JStr '''')))))"

text \<open>
  \<^verbatim>\<open>(s.personal_finance_category && s.personal_finance_category.detailed) || null\<close>
\<close>

definition pick_category :: "jsval \<Rightarrow> error + jsval" where
  "pick_category s =
     and_then (get s ''personal_finance_category'') (\<lambda>p.
       and_then (if truthy p then get p ''detailed'' else Inr p) (\<lambda>c.
         Inr (js_or c JNull)))"

text \<open>The object literal of \<^verbatim>\<open>pickFields\<close>, its properties evaluated in source order.\<close>

definition pickFields :: "coercion \<Rightarrow> jsval \<Rightarrow> error + jsval" where
  "pickFields co s =
     and_then (get s ''account_id'') (\<lambda>acc.
     and_then (pick_amount co s) (\<lambda>amt.
     and_then (pick_description s) (\<lambda>descr.
     and_then (get s ''frequency'') (\<lambda>freq.
     and_then (get s ''last_date'') (\<lambda>ld.
     and_then (pick_category s) (\<lambda>cat.
     and_then (get s ''predicted_next_date'') (\<lambda>pnd.
       Inr (JObj
         [(''account_id'', acc),
          (''average_amount'', JObj [(''amount'', JNum amt)]),
          (''description'', descr),
          (''frequency'', js_or freq JNull),
          (''last_date'', js_or ld JNull),
          (''personal_finance_category'', JObj [(''detailed'', cat)]),
          (''predicted_next_date'', js_or pnd JNull)]))))))))"

text \<open>\<^verbatim>\<open>xs.filter((s) => s.is_active)\<close>: reading a property of a null element throws.\<close>

fun filter_active :: "jsval list \<Rightarrow> error + jsval list" where
  "filter_active [] = Inr []"
| "filter_active (s # ss) =
     and_then (get s ''is_active'') (\<lambda>flag.
     and_then (filter_active ss) (\<lambda>rest.
       Inr (if truthy flag then s # rest else rest)))"

text \<open>
  \<^verbatim>\<open>const active = (arr) => (arr || []).filter((s) => s.is_active)\<close>: a truthy value that
  is not an array has no \<^verbatim>\<open>filter\<close> method.
\<close>

definition active :: "jsval \<Rightarrow> error + jsval list" where
  "active arr =
     (case js_or arr (JArr []) of JArr xs \<Rightarrow> filter_active xs | _ \<Rightarrow> Inl TypeError)"

text \<open>\<^verbatim>\<open>xs.map(f)\<close> for an \<open>f\<close> that can throw.\<close>

fun map_err :: "('a \<Rightarrow> error + 'b) \<Rightarrow> 'a list \<Rightarrow> error + 'b list" where
  "map_err f [] = Inr []"
| "map_err f (x # xs) =
     and_then (f x) (\<lambda>y. and_then (map_err f xs) (\<lambda>ys. Inr (y # ys)))"

text \<open>
  The array \<^verbatim>\<open>combined\<close> before it is sorted, in the variant that merges both lists:
  \<^verbatim>\<open>const streams = resp || { inflow_streams: [], outflow_streams: [] }\<close>, then
  \<^verbatim>\<open>[...active(streams.inflow_streams).map(pickFields),
    ...active(streams.outflow_streams).map(pickFields)]\<close>.
\<close>

definition default_streams :: jsval where
  "default_streams = JObj [(''inflow_streams'', JArr []), (''outflow_streams'', JArr [])]"

definition combined :: "coercion \<Rightarrow> jsval \<Rightarrow> error + jsval list" where
  "combined co resp =
     (let streams = js_or resp default_streams in
      and_then (get streams ''inflow_streams'') (\<lambda>inflow.
      and_then (active inflow) (\<lambda>ins.
      and_then (map_err (pickFields co) ins) (\<lambda>in_items.
      and_then (get streams ''outflow_streams'') (\<lambda>outflow.
      and_then (active outflow) (\<lambda>outs.
      and_then (map_err (pickFields co) outs) (\<lambda>out_items.
        Inr (in_items @ out_items))))))))"

text \<open>
  The variant that reads the outflow list only:
  \<^verbatim>\<open>const outflows = (resp && Array.isArray(resp.outflow_streams)) ? resp.outflow_streams : []\<close>,
  then \<^verbatim>\<open>outflows.filter((s) => s.is_active).map(pickFields)\<close>.
\<close>

definition outflows :: "jsval \<Rightarrow> jsval list" where
  "outflows resp =
     (if truthy resp
      then (case opt_get resp ''outflow_streams'' of JArr xs \<Rightarrow> xs | _ \<Rightarrow> [])
      else [])"

definition combined_outflow :: "coercion \<Rightarrow> jsval \<Rightarrow> error + jsval list" where
  "combined_outflow co resp =
     and_then (filter_active (outflows resp)) (\<lambda>outs. map_err (pickFields co) outs)"

text \<open>
  The comparator handed to \<^verbatim>\<open>sort\<close>. \<^verbatim>\<open>ax.localeCompare(bx)\<close> is the runtime's: the
  parameter \<open>lc\<close> takes the receiver, a string, and the argument as it is. A truthy
  \<^verbatim>\<open>ax\<close> that is not a string has no such method.
\<close>

type_synonym collation = "string \<Rightarrow> jsval \<Rightarrow> error + int"

definition compare_items :: "collation \<Rightarrow> jsval \<Rightarrow> jsval \<Rightarrow> error + int" where
  "compare_items lc a b =
     and_then (get a ''predicted_next_date'') (\<lambda>ad.
     and_then (get b ''predicted_next_date'') (\<lambda>bd.
       (let ax = js_or ad (JStr ''''); bx = js_or bd (JStr '''') in
        if \<not> truthy ax \<and> \<not> truthy bx then Inr 0
        else if \<not> truthy ax then Inr 1
        else if \<not> truthy bx then Inr (- 1)
        else (case ax of JStr s \<Rightarrow> lc s bx | _ \<Rightarrow> Inl TypeError))))"

text \<open>
  \<^verbatim>\<open>Array.prototype.sort\<close> with a comparator is stable (ECMAScript 2019): an element
  stays in front of a later one unless the comparator puts it after. It is modelled as
  the stable insertion sort; an exception of the comparator ends the sort.
\<close>

fun insert_by :: "('a \<Rightarrow> 'a \<Rightarrow> error + int) \<Rightarrow> 'a \<Rightarrow> 'a list \<Rightarrow> error + 'a list" where
  "insert_by cmp x [] = Inr [x]"
| "insert_by cmp x (y # ys) =
     and_then (cmp x y) (\<lambda>c.
       if c \<le> 0 then Inr (x # y # ys)
       else and_then (insert_by cmp x ys) (\<lambda>r. Inr (y # r)))"

fun sort_by :: "('a \<Rightarrow> 'a \<Rightarrow> error + int) \<Rightarrow> 'a list \<Rightarrow> error + 'a list" where
  "sort_by cmp [] = Inr []"
| "sort_by cmp (x # xs) = and_then (sort_by cmp xs) (insert_by cmp x)"

text \<open>
  \<^verbatim>\<open>toRecurringItems\<close>, merging both lists; an \<open>Inl\<close> is the rejection of the promise the
  \<^verbatim>\<open>async\<close> function returns.
\<close>

definition toRecurringItems :: "collation \<Rightarrow> coercion \<Rightarrow> jsval \<Rightarrow> error + jsval list" where
  "toRecurringItems lc co resp = and_then (combined co resp) (sort_by (compare_items lc))"

text \<open>\<^verbatim>\<open>toRecurringItems\<close> of the variant that reads the outflow list only.\<close>

definition toRecurringItems_outflow :: "collation \<Rightarrow> coercion \<Rightarrow> jsval \<Rightarrow> error + jsval list" where
  "toRecurringItems_outflow lc co resp =
     and_then (combined_outflow co resp) (sort_by (compare_items lc))"

section \<open>The local cache\<close>

text \<open>
  \<^verbatim>\<open>localStorage\<close> holds strings. A stored string is kept by what \<^verbatim>\<open>JSON.parse\<close> makes of
  it: \<open>JsonText v\<close> is the JSON text of the value \<open>v\<close>, \<open>Text s\<close> is a string \<open>s\<close> that is
  not read as JSON (\<^verbatim>\<open>JSON.parse\<close> throws on it; the empty string is \<open>Text []\<close>). The
  identity is stored as such a text, under a key that is never parsed.
\<close>

datatype stored = Text string | JsonText jsval

text \<open>
  What \<^verbatim>\<open>JSON.stringify\<close> keeps of a value: a property whose value is undefined is
  dropped, an undefined array element and a number that is not finite become null.
\<close>

primrec json_norm :: "jsval \<Rightarrow> jsval" where
  "json_norm JUndefined = JUndefined"
| "json_norm JNull = JNull"
| "json_norm (JBool b) = JBool b"
| "json_norm (JNum n) = (case n of Fin r \<Rightarrow> JNum (Fin r) | _ \<Rightarrow> JNull)"
| "json_norm (JStr s) = JStr s"
| "json_norm (JArr xs) =
     JArr (map (\<lambda>v. if v = JUndefined then JNull else v) (map json_norm xs))"
| "json_norm (JObj kvs) =
     JObj (filter (\<lambda>kv. snd kv \<noteq> JUndefined) (map (map_prod id json_norm) kvs))"

definition JSON_stringify :: "jsval \<Rightarrow> stored" where
  "JSON_stringify v = JsonText (json_norm v)"

fun JSON_parse :: "stored \<Rightarrow> error + jsval" where
  "JSON_parse (Text s) = Inl SyntaxError"
| "JSON_parse (JsonText v) = Inr v"

text \<open>
  The store itself: its slots, whether reading and writing work (a disabled or full
  store throws), and the list of the calls made on it.
\<close>

datatype storage_op = GetItem string | SetItem string

record local_storage =
  slots :: "string \<Rightarrow> stored option"
  readable :: bool
  writable :: bool
  trace :: "storage_op list"

definition getItem :: "local_storage \<Rightarrow> string \<Rightarrow> (error + stored option) \<times> local_storage" where
  "getItem ls k =
     (if readable ls then Inr (slots ls k) else Inl StorageError,
      ls\<lparr>trace := trace ls @ [GetItem k]\<rparr>)"

definition setItem :: "local_storage \<Rightarrow> string \<Rightarrow> stored \<Rightarrow> (error + unit) \<times> local_storage" where
  "setItem ls k v =
     (if writable ls
      then (Inr (), ls\<lparr>slots := (slots ls)(k \<mapsto> v), trace := trace ls @ [SetItem k]\<rparr>)
      else (Inl StorageError, ls\<lparr>trace := trace ls @ [SetItem k]\<rparr>))"

text \<open>\<^verbatim>\<open>const CACHE_TTL_MS = 1000 * 60 * 60 * 12\<close>, and the key of an identity.\<close>

definition CACHE_TTL_MS :: int where
  "CACHE_TTL_MS = 1000 * 60 * 60 * 12"

definition cacheKey :: "string \<Rightarrow> string" where
  "cacheKey uid = ''recurring_cache_v1:'' @ uid"

text \<open>Subtraction and \<^verbatim>\<open>>\<close> on numbers; \<^verbatim>\<open>Date.now()\<close> is a whole number of milliseconds.\<close>

fun js_sub :: "jsnum \<Rightarrow> jsnum \<Rightarrow> jsnum" where
  "js_sub (Fin a) (Fin b) = Fin (a - b)"
| "js_sub NaN y = NaN"
| "js_sub x NaN = NaN"
| "js_sub PosInf PosInf = NaN"
| "js_sub NegInf NegInf = NaN"
| "js_sub PosInf y = PosInf"
| "js_sub NegInf y = NegInf"
| "js_sub (Fin a) PosInf = NegInf"
| "js_sub (Fin a) NegInf = PosInf"

fun js_gt :: "jsnum \<Rightarrow> jsnum \<Rightarrow> bool" where
  "js_gt (Fin a) (Fin b) = (a > b)"
| "js_gt NaN y = False"
| "js_gt x NaN = False"
| "js_gt PosInf PosInf = False"
| "js_gt PosInf y = True"
| "js_gt NegInf y = False"
| "js_gt (Fin a) PosInf = False"
| "js_gt (Fin a) NegInf = True"

definition date_now :: "int \<Rightarrow> jsnum" where
  "date_now t = Fin (of_int t)"

text \<open>
  The two checks of \<^verbatim>\<open>readCache\<close> on the parsed value:
  \<^verbatim>\<open>if (!obj?.items || !Array.isArray(obj.items) || !obj.ts) return null;\<close>
  \<^verbatim>\<open>if (Date.now() - obj.ts > CACHE_TTL_MS) return null;\<close>
  \<^verbatim>\<open>return obj.items;\<close>
  The subtraction converts \<^verbatim>\<open>obj.ts\<close> to a number.
\<close>

definition validate_entry :: "coercion \<Rightarrow> int \<Rightarrow> jsval \<Rightarrow> error + jsval list option" where
  "validate_entry co now obj =
     (let items = opt_get obj ''items'' in
      if \<not> truthy items then Inr None
      else (case items of
          JArr xs \<Rightarrow>
            and_then (get obj ''ts'') (\<lambda>ts.
              if \<not> truthy ts then Inr None
              else and_then (ToNumber co ts) (\<lambda>n.
                if js_gt (js_sub (date_now now) n) (date_now CACHE_TTL_MS) then Inr None
                else Inr (Some xs)))
        | _ \<Rightarrow> Inr None))"

text \<open>
  \<^verbatim>\<open>readCache\<close>: \<open>None\<close> is its \<^verbatim>\<open>null\<close>. Every exception inside the \<^verbatim>\<open>try\<close> ends in the
  \<^verbatim>\<open>catch\<close>, which returns null.
\<close>

definition readCache ::
  "coercion \<Rightarrow> int \<Rightarrow> local_storage \<Rightarrow> string \<Rightarrow> jsval list option \<times> local_storage" where
  "readCache co now ls uid =
     (case getItem ls (cacheKey uid) of (r, ls') \<Rightarrow>
        (case and_then r (\<lambda>raw.
                case raw of None \<Rightarrow> Inr None
                | Some text \<Rightarrow>
                    if text = Text [] then Inr None
                    else and_then (JSON_parse text) (validate_entry co now))
         of Inl e \<Rightarrow> None | Inr res \<Rightarrow> res,
         ls'))"

text \<open>
  \<^verbatim>\<open>writeCache\<close>: \<^verbatim>\<open>localStorage.setItem(cacheKey(uid), JSON.stringify({ ts: Date.now(), items }))\<close>
  with the exception of a failed write swallowed.
\<close>

definition writeCache :: "int \<Rightarrow> local_storage \<Rightarrow> string \<Rightarrow> jsval list \<Rightarrow> local_storage" where
  "writeCache now ls uid items =
     snd (setItem ls (cacheKey uid)
            (JSON_stringify (JObj [(''ts'', JNum (date_now now)), (''items'', JArr items)])))"

section \<open>The page controller\<close>

text \<open>
  The four pieces of state of \<^verbatim>\<open>LinkPage\<close>, and around them what its effects reach: the
  store, the bodies of the requests sent, and the console.
\<close>

record page_state =
  linkToken :: jsval
  message :: string
  loading :: bool
  subs :: "jsval list"

definition initial_page :: page_state where
  "initial_page = \<lparr>linkToken = JNull, message = [], loading = True, subs = []\<rparr>"

record world =
  page :: page_state
  storage :: local_storage
  requests :: "jsval list"
  console :: "string list"

text \<open>
  What the one \<^verbatim>\<open>fetch\<close> call comes back with: a network failure, a status that is not
  ok, a body that is not JSON, or the parsed body.
\<close>

datatype response = Unreachable | Status_not_ok | Body_not_json | Body jsval

text \<open>\<^verbatim>\<open>!userId\<close> holds for null and for the empty string.\<close>

definition has_identity :: "string option \<Rightarrow> bool" where
  "has_identity userId = (case userId of None \<Rightarrow> False | Some uid \<Rightarrow> uid \<noteq> [])"

text \<open>
  The \<^verbatim>\<open>try\<close> block of \<^verbatim>\<open>fetchFromApi\<close> from the answer on; \<open>Inl\<close> is an exception on its
  way to the \<^verbatim>\<open>catch\<close>. Every state change of a branch comes after the last call that
  can throw.
\<close>

definition on_response ::
  "collation \<Rightarrow> coercion \<Rightarrow> int \<Rightarrow> string \<Rightarrow> response \<Rightarrow> world \<Rightarrow> error + world" where
  "on_response lc co now uid resp w =
     (case resp of
        Unreachable \<Rightarrow> Inl NetworkError
      | Status_not_ok \<Rightarrow> Inl HttpError
      | Body_not_json \<Rightarrow> Inl SyntaxError
      | Body data \<Rightarrow>
          (let ro = opt_get data ''response_object''; tag = opt_get ro ''tag'' in
           if tag = JStr ''recurring_data'' then
             and_then (toRecurringItems lc co (opt_get ro ''data'')) (\<lambda>items.
               Inr (w\<lparr>page := (page w)\<lparr>subs := items, linkToken := JNull,
                        message := (if items \<noteq> [] then []
                                    else ''No recurring transactions found.'')\<rparr>,
                      storage := writeCache now (storage w) uid items\<rparr>))
           else if tag = JStr ''link_token'' then
             Inr (w\<lparr>page := (page w)\<lparr>linkToken := opt_get (opt_get ro ''data'') ''link_token'',
                      message := []\<rparr>\<rparr>)
           else Inr (w\<lparr>page := (page w)\<lparr>message := ''No data returned.''\<rparr>\<rparr>)))"

text \<open>
  \<^verbatim>\<open>fetchFromApi\<close>, run to the end of its \<^verbatim>\<open>finally\<close>: the state after the answer has been
  handled. \<open>now\<close> is the clock when the cache is written.
\<close>

definition fetchFromApi ::
  "collation \<Rightarrow> coercion \<Rightarrow> int \<Rightarrow> string option \<Rightarrow> response \<Rightarrow> world \<Rightarrow> world" where
  "fetchFromApi lc co now userId resp w =
     (case userId of None \<Rightarrow> w
      | Some uid \<Rightarrow>
          if uid = [] then w
          else
            (let w1 = w\<lparr>page := (page w)\<lparr>loading := True, message := []\<rparr>,
                        requests := requests w @ [JObj [(''userId'', JStr uid)]]\<rparr>;
                 w2 = (case on_response lc co now uid resp w1 of
                         Inr w' \<Rightarrow> w'
                       | Inl e \<Rightarrow>
                           w1\<lparr>console := console w1 @ [''Error retrieving recurring data:''],
                              page := (page w1)\<lparr>message :=
                                ''Error retrieving data. Please try again.''\<rparr>\<rparr>)
             in w2\<lparr>page := (page w2)\<lparr>loading := False\<rparr>\<rparr>))"

text \<open>
  The effect that runs on activation. \<open>now\<close> is the clock when the cache is read,
  \<open>later\<close> the clock when the answer of the request is handled. Storing the identity is
  outside every \<^verbatim>\<open>try\<close>: if it throws the effect ends with the exception (\<open>Inl\<close>).
\<close>

definition useEffect ::
  "collation \<Rightarrow> coercion \<Rightarrow> int \<Rightarrow> int \<Rightarrow> string option \<Rightarrow> response \<Rightarrow> world \<Rightarrow> error + world" where
  "useEffect lc co now later userId resp w =
     (case userId of
        None \<Rightarrow> Inr (w\<lparr>console := console w @ [''Missing user_id''],
                       page := (page w)\<lparr>loading := False\<rparr>\<rparr>)
      | Some uid \<Rightarrow>
          if uid = [] then
            Inr (w\<lparr>console := console w @ [''Missing user_id''],
                   page := (page w)\<lparr>loading := False\<rparr>\<rparr>)
          else
            (case setItem (storage w) ''user_id'' (Text uid) of (r, ls1) \<Rightarrow>
               and_then r (\<lambda>_.
                 (case readCache co now ls1 uid of (cached, ls2) \<Rightarrow>
                    (case cached of
                       Some (x # xs) \<Rightarrow>
                         Inr (w\<lparr>storage := ls2,
                                page := (page w)\<lparr>subs := x # xs, linkToken := JNull,
                                          message := [], loading := False\<rparr>\<rparr>)
                     | _ \<Rightarrow>
                         Inr (fetchFromApi lc co later userId resp (w\<lparr>storage := ls2\<rparr>)))))))"

text \<open>What the page renders, by the nested conditional of the \<^verbatim>\<open>return\<close>.\<close>

datatype view = Loader | Subscriptions "jsval list" | ConnectYourBank jsval | MessagePanel string

definition render :: "page_state \<Rightarrow> view" where
  "render st =
     (if loading st then Loader
      else if length (subs st) > 0 then Subscriptions (subs st)
      else if truthy (linkToken st) then ConnectYourBank (linkToken st)
      else MessagePanel (if message st \<noteq> [] then message st else ''Ready.''))"

section \<open>Notions the properties are stated with\<close>

text \<open>A stream is active when its \<^verbatim>\<open>is_active\<close> is truthy; an absent flag is undefined.\<close>

definition is_active :: "jsval \<Rightarrow> bool" where
  "is_active s = truthy (opt_get s ''is_active'')"

text \<open>The streams of a named list of the payload: none unless the list is an array.\<close>

definition streams_of :: "jsval \<Rightarrow> string \<Rightarrow> jsval list" where
  "streams_of resp k = (case opt_get resp k of JArr xs \<Rightarrow> xs | _ \<Rightarrow> [])"

text \<open>
  The date of a normalized item, whether it has one, and the date as a string. For a
  function \<open>k\<close> from strings into a linear order (the sort key of a collation), the key of
  an item orders dated items by \<open>k\<close> of their date and puts the others behind them.
\<close>

definition item_date :: "jsval \<Rightarrow> jsval" where
  "item_date a = opt_get a ''predicted_next_date''"

definition dated :: "jsval \<Rightarrow> bool" where
  "dated a = truthy (item_date a)"

definition date_text :: "jsval \<Rightarrow> string" where
  "date_text a = (case item_date a of JStr s \<Rightarrow> s | _ \<Rightarrow> [])"

definition date_key :: "(string \<Rightarrow> 'k) \<Rightarrow> jsval \<Rightarrow> nat \<times> 'k" where
  "date_key k a = (if dated a then (0, k (date_text a)) else (1, k []))"

text \<open>
  The dates of the items are strings, and on them \<^verbatim>\<open>localeCompare\<close> is a collation with
  the sort key \<open>k\<close>: it answers by comparing \<open>k\<close> of the receiver with \<open>k\<close> of the
  argument. With the identity for \<open>k\<close> this is the lexicographic order of the code
  units, which is how \<^verbatim>\<open>localeCompare\<close> orders ISO-8601 dates.
\<close>

definition dates_collate :: "(string \<Rightarrow> 'k::linorder) \<Rightarrow> collation \<Rightarrow> jsval list \<Rightarrow> bool" where
  "dates_collate k lc xs \<longleftrightarrow>
     (\<forall>a\<in>set xs. dated a \<longrightarrow> (\<exists>s. item_date a = JStr s)) \<and>
     (\<forall>a\<in>set xs. \<forall>b\<in>set xs. dated a \<and> dated b \<longrightarrow>
        (\<exists>c. lc (date_text a) (item_date b) = Inr c \<and>
             (c < 0 \<longleftrightarrow> k (date_text a) < k (date_text b)) \<and>
             (c = 0 \<longleftrightarrow> k (date_text a) = k (date_text b))))"

text \<open>
  \<^verbatim>\<open>s.f?.amount\<close> of a stream, the amount of a normalized item, and the shape of the
  holder \<^verbatim>\<open>s.f\<close>: missing, null, or a truthy value such as an object (not one of false,
  0, NaN and the empty string).
\<close>

definition field_amount :: "jsval \<Rightarrow> string \<Rightarrow> jsval" where
  "field_amount s f = opt_get (opt_get s f) ''amount''"

definition item_amount :: "jsval \<Rightarrow> jsval" where
  "item_amount item = opt_get (opt_get item ''average_amount'') ''amount''"

definition amount_holder :: "jsval \<Rightarrow> string \<Rightarrow> bool" where
  "amount_holder s f = (nullish (opt_get s f) \<or> truthy (opt_get s f))"

text \<open>A value that serialisation to JSON leaves as it is.\<close>

definition json_value :: "jsval \<Rightarrow> bool" where
  "json_value v = (json_norm v = v)"

text \<open>The store after the effect has stored the identity and looked the cache up.\<close>

definition after_lookup :: "local_storage \<Rightarrow> string \<Rightarrow> local_storage" where
  "after_lookup ls uid =
     ls\<lparr>slots := (slots ls)(''user_id'' \<mapsto> Text uid),
        trace := trace ls @ [SetItem ''user_id'', GetItem (cacheKey uid)]\<rparr>"

section \<open>Example data\<close>

text \<open>
  A collation and a conversion for the examples. On ISO-8601 dates, which are ASCII
  digits and hyphens, \<^verbatim>\<open>localeCompare\<close> orders by code unit in every locale; the examples
  compare such dates only (an argument that is not a string gets no answer here).
  \<^verbatim>\<open>Number\<close> of a string that is not a numeric literal is NaN; the examples convert no
  other string, and no array or object.
\<close>

definition localeCompare_codeunits :: collation where
  "localeCompare_codeunits s v =
     (case v of JStr t \<Rightarrow> Inr (if s < t then - 1 else if s = t then 0 else 1)
      | _ \<Rightarrow> Inl TypeError)"

definition Number_nonnumeric :: coercion where
  "Number_nonnumeric v = Inr NaN"

text \<open>
  A collation that is not the code-unit order. On strings of ASCII letters
  \<^verbatim>\<open>localeCompare\<close> compares alphabetically first, whatever the case, and by case second,
  lower case first: \<^verbatim>\<open>"a".localeCompare("B")\<close> is negative, although the code unit of
  \<^verbatim>\<open>B\<close> is the smaller one. The examples give it strings of letters only.
\<close>

definition fold_case :: "char \<Rightarrow> char" where
  "fold_case c =
     (if 65 \<le> (of_char c :: nat) \<and> (of_char c :: nat) \<le> 90
      then char_of ((of_char c :: nat) + 32) else c)"

definition swap_case :: "char \<Rightarrow> char" where
  "swap_case c =
     (if 65 \<le> (of_char c :: nat) \<and> (of_char c :: nat) \<le> 90
      then char_of ((of_char c :: nat) + 32)
      else if 97 \<le> (of_char c :: nat) \<and> (of_char c :: nat) \<le> 122
      then char_of ((of_char c :: nat) - 32) else c)"

definition alphabetic_key :: "string \<Rightarrow> string \<times> string" where
  "alphabetic_key s = (map fold_case s, map swap_case s)"

definition localeCompare_alphabetic :: collation where
  "localeCompare_alphabetic s v =
     (case v of
        JStr t \<Rightarrow>
          Inr (if alphabetic_key s < alphabetic_key t then - 1
               else if alphabetic_key s = alphabetic_key t then 0 else 1)
      | _ \<Rightarrow> Inl TypeError)"

text \<open>
  Five streams: an outflow, an inflow without average amount, one with the date of the
  first, one without date, one inactive.
\<close>

definition spotify :: jsval where
  "spotify = JObj
     [(''account_id'', JStr ''a1''), (''is_active'', JBool True),
      (''merchant_name'', JStr ''Spotify''),
      (''average_amount'', JObj [(''amount'', JNum (Fin (999 / 100)))]),
      (''frequency'', JStr ''MONTHLY''),
      (''predicted_next_date'', JStr ''2025-09-14''),
      (''last_date'', JStr ''2025-08-14'')]"

definition salary :: jsval where
  "salary = JObj
     [(''account_id'', JStr ''a1''), (''is_active'', JBool True),
      (''description'', JStr ''ACME PAYROLL''),
      (''last_amount'', JObj [(''amount'', JNum (Fin 5))]),
      (''predicted_next_date'', JStr ''2025-09-01'')]"

definition netflix :: jsval where
  "netflix = JObj
     [(''account_id'', JStr ''a1''), (''is_active'', JNum (Fin 1)),
      (''merchant_name'', JStr ''Netflix''),
      (''average_amount'', JObj [(''amount'', JNum (Fin (1549 / 100)))]),
      (''predicted_next_date'', JStr ''2025-09-14'')]"

definition gym :: jsval where
  "gym = JObj
     [(''account_id'', JStr ''a2''), (''is_active'', JBool True),
      (''merchant_name'', JStr ''  '')]"

definition closed_stream :: jsval where
  "closed_stream = JObj
     [(''account_id'', JStr ''a3''), (''is_active'', JBool False),
      (''predicted_next_date'', JStr ''2025-01-01'')]"

definition spotify_item :: jsval where
  "spotify_item = JObj
    [(''account_id'', JStr ''a1''),
     (''average_amount'', JObj [(''amount'', JNum (Fin (999 / 100)))]),
     (''description'', JStr ''Spotify''), (''frequency'', JStr ''MONTHLY''),
     (''last_date'', JStr ''2025-08-14''),
     (''personal_finance_category'', JObj [(''detailed'', JNull)]),
     (''predicted_next_date'', JStr ''2025-09-14'')]"

definition netflix_item :: jsval where
  "netflix_item = JObj
    [(''account_id'', JStr ''a1''),
     (''average_amount'', JObj [(''amount'', JNum (Fin (1549 / 100)))]),
     (''description'', JStr ''Netflix''), (''frequency'', JNull),
     (''last_date'', JNull),
     (''personal_finance_category'', JObj [(''detailed'', JNull)]),
     (''predicted_next_date'', JStr ''2025-09-14'')]"

definition salary_item :: jsval where
  "salary_item = JObj
    [(''account_id'', JStr ''a1''),
     (''average_amount'', JObj [(''amount'', JNum (Fin 5))]),
     (''description'', JStr ''ACME PAYROLL''), (''frequency'', JNull),
     (''last_date'', JNull),
     (''personal_finance_category'', JObj [(''detailed'', JNull)]),
     (''predicted_next_date'', JStr ''2025-09-01'')]"

definition gym_item :: jsval where
  "gym_item = JObj
    [(''account_id'', JStr ''a2''),
     (''average_amount'', JObj [(''amount'', JNum (Fin 0))]),
     (''description'', JStr []), (''frequency'', JNull),
     (''last_date'', JNull),
     (''personal_finance_category'', JObj [(''detailed'', JNull)]),
     (''predicted_next_date'', JNull)]"

text \<open>
  Two streams whose next dates are the strings \<^verbatim>\<open>B\<close> and \<^verbatim>\<open>a\<close>, a stream without
  account, a stream whose amount is not a number, and a stream whose average amount is
  the number 0 in place of an object; with the items of the first four, and what
  serialisation to JSON keeps of the third and the fourth.
\<close>

definition stream_B :: jsval where
  "stream_B = JObj [(''account_id'', JStr ''b1''), (''is_active'', JBool True),
                    (''predicted_next_date'', JStr ''B'')]"

definition stream_a :: jsval where
  "stream_a = JObj [(''account_id'', JStr ''b2''), (''is_active'', JBool True),
                    (''predicted_next_date'', JStr ''a'')]"

definition item_B :: jsval where
  "item_B = JObj
    [(''account_id'', JStr ''b1''),
     (''average_amount'', JObj [(''amount'', JNum (Fin 0))]),
     (''description'', JStr []), (''frequency'', JNull), (''last_date'', JNull),
     (''personal_finance_category'', JObj [(''detailed'', JNull)]),
     (''predicted_next_date'', JStr ''B'')]"

definition item_a :: jsval where
  "item_a = JObj
    [(''account_id'', JStr ''b2''),
     (''average_amount'', JObj [(''amount'', JNum (Fin 0))]),
     (''description'', JStr []), (''frequency'', JNull), (''last_date'', JNull),
     (''personal_finance_category'', JObj [(''detailed'', JNull)]),
     (''predicted_next_date'', JStr ''a'')]"

definition rent :: jsval where
  "rent = JObj
     [(''is_active'', JBool True), (''merchant_name'', JStr ''Rent''),
      (''average_amount'', JObj [(''amount'', JNum (Fin 1200))]),
      (''predicted_next_date'', JStr ''2025-10-01'')]"

definition barter :: jsval where
  "barter = JObj
     [(''account_id'', JStr ''a4''), (''is_active'', JBool True),
      (''merchant_name'', JStr ''Barter''),
      (''average_amount'', JObj [(''amount'', JStr ''n/a'')])]"

definition rent_item :: jsval where
  "rent_item = JObj
    [(''account_id'', JUndefined),
     (''average_amount'', JObj [(''amount'', JNum (Fin 1200))]),
     (''description'', JStr ''Rent''), (''frequency'', JNull), (''last_date'', JNull),
     (''personal_finance_category'', JObj [(''detailed'', JNull)]),
     (''predicted_next_date'', JStr ''2025-10-01'')]"

definition barter_item :: jsval where
  "barter_item = JObj
    [(''account_id'', JStr ''a4''),
     (''average_amount'', JObj [(''amount'', JNum NaN)]),
     (''description'', JStr ''Barter''), (''frequency'', JNull), (''last_date'', JNull),
     (''personal_finance_category'', JObj [(''detailed'', JNull)]),
     (''predicted_next_date'', JNull)]"

definition rent_item_stored :: jsval where
  "rent_item_stored = JObj
    [(''average_amount'', JObj [(''amount'', JNum (Fin 1200))]),
     (''description'', JStr ''Rent''), (''frequency'', JNull), (''last_date'', JNull),
     (''personal_finance_category'', JObj [(''detailed'', JNull)]),
     (''predicted_next_date'', JStr ''2025-10-01'')]"

definition barter_item_stored :: jsval where
  "barter_item_stored = JObj
    [(''account_id'', JStr ''a4''),
     (''average_amount'', JObj [(''amount'', JNull)]),
     (''description'', JStr ''Barter''), (''frequency'', JNull), (''last_date'', JNull),
     (''personal_finance_category'', JObj [(''detailed'', JNull)]),
     (''predicted_next_date'', JNull)]"

definition zero_average :: jsval where
  "zero_average = JObj
     [(''account_id'', JStr ''a5''), (''is_active'', JBool True),
      (''average_amount'', JNum (Fin 0)),
      (''last_amount'', JObj [(''amount'', JNum (Fin 7))])]"

text \<open>
  Payloads: both lists, the inflow list only, the outflow list only, the two streams
  dated by letters, and the two streams that JSON does not keep as they are.
\<close>

definition letters_payload :: jsval where
  "letters_payload = JObj [(''outflow_streams'', JArr [stream_B, stream_a])]"

definition lossy_payload :: jsval where
  "lossy_payload = JObj [(''outflow_streams'', JArr [rent, barter])]"

definition payload :: jsval where
  "payload = JObj [(''inflow_streams'', JArr [salary]),
                   (''outflow_streams'', JArr [gym, netflix, closed_stream, spotify])]"

definition inflow_payload :: jsval where
  "inflow_payload = JObj [(''inflow_streams'', JArr [salary]), (''outflow_streams'', JArr [])]"

definition outflow_payload :: jsval where
  "outflow_payload = JObj [(''outflow_streams'', JArr [spotify])]"

text \<open>Stores, cache entries for the identity \<^verbatim>\<open>u1\<close>, a world and an answer.\<close>

definition empty_storage :: local_storage where
  "empty_storage = \<lparr>slots = (\<lambda>k. None), readable = True, writable = True, trace = []\<rparr>"

definition storage_holding :: "jsval \<Rightarrow> local_storage" where
  "storage_holding entry = empty_storage\<lparr>slots := [cacheKey ''u1'' \<mapsto> JsonText entry]\<rparr>"

definition fresh_entry :: jsval where
  "fresh_entry = JObj [(''ts'', JNum (Fin 1762000000000)), (''items'', JArr [spotify_item])]"

definition text_ts_entry :: jsval where
  "text_ts_entry = JObj [(''ts'', JStr ''abc''), (''items'', JArr [spotify_item])]"

definition empty_entry :: jsval where
  "empty_entry = JObj [(''ts'', JNum (Fin 1762000000000)), (''items'', JArr [])]"

definition world_with :: "local_storage \<Rightarrow> jsval list \<Rightarrow> world" where
  "world_with ls shown =
     \<lparr>page = initial_page\<lparr>subs := shown\<rparr>, storage = ls, requests = [], console = []\<rparr>"

definition link_token_body :: jsval where
  "link_token_body = JObj [(''response_object'',
     JObj [(''tag'', JStr ''link_token''), (''data'', JObj [(''link_token'', JStr ''tok1'')])])]"

section \<open>Exceptions and property reads\<close>

lemma and_then_Inl [simp]: "and_then (Inl e) f = Inl e"
  by (simp add: and_then_def)

lemma and_then_Inr [simp]: "and_then (Inr v) f = f v"
  by (simp add: and_then_def)

lemma and_then_eq_Inr: "and_then m f = Inr y \<longleftrightarrow> (\<exists>v. m = Inr v \<and> f v = Inr y)"
  by (cases m) simp_all

lemma get_truthy: "truthy v \<Longrightarrow> get v k = Inr (opt_get v k)"
  by (cases v) (auto simp: opt_get_def)

lemma get_not_nullish: "\<not> nullish v \<Longrightarrow> get v k = Inr (opt_get v k)"
  by (cases v) (auto simp: opt_get_def)

lemma opt_get_falsy: "\<not> truthy v \<Longrightarrow> opt_get v k = JUndefined"
  by (cases v) (auto simp: opt_get_def)

section \<open>The amount of a normalized item\<close>

lemma pickFields_amount:
  "pickFields co s = Inr item \<Longrightarrow> \<exists>n. pick_amount co s = Inr n \<and> item_amount item = JNum n"
  by (auto simp: pickFields_def and_then_eq_Inr item_amount_def opt_get_def)

lemma pickFields_not_nullish: "pickFields co s = Inr item \<Longrightarrow> \<not> nullish s"
  by (cases s) (auto simp: pickFields_def)

lemma guarded_amount_holder:
  assumes "\<not> nullish s" and "amount_holder s f"
  shows "\<exists>v. guarded_amount s f = Inr v \<and> nullish v = nullish (field_amount s f) \<and>
             (\<not> nullish v \<longrightarrow> v = field_amount s f)"
proof (cases "truthy (opt_get s f)")
  case True
  then have "get (opt_get s f) ''amount'' = Inr (field_amount s f)"
    by (simp add: get_truthy field_amount_def)
  with True assms(1) show ?thesis
    by (simp add: guarded_amount_def get_not_nullish)
next
  case False
  with assms(2) have n: "nullish (opt_get s f)"
    by (simp add: amount_holder_def)
  from False have "field_amount s f = JUndefined"
    by (simp add: field_amount_def opt_get_falsy)
  with False assms(1) n show ?thesis
    by (simp add: guarded_amount_def get_not_nullish)
qed

text \<open>
  For a stream that \<^verbatim>\<open>pickFields\<close> normalizes, with \<^verbatim>\<open>average_amount\<close> and
  \<^verbatim>\<open>last_amount\<close> each missing, null or a truthy value such as an object: the amount of
  the item is a number; it is \<^verbatim>\<open>Number\<close> of \<^verbatim>\<open>average_amount.amount\<close> when that is
  present (so the number itself when it is one), else \<^verbatim>\<open>Number\<close> of
  \<^verbatim>\<open>last_amount.amount\<close> when that is present, else 0.
\<close>

lemma pickFields_amount_well_shaped:
  assumes ok: "pickFields co s = Inr item"
    and avg: "amount_holder s ''average_amount''"
    and lst: "amount_holder s ''last_amount''"
  shows "\<exists>n. item_amount item = JNum n \<and>
     (\<not> nullish (field_amount s ''average_amount'') \<longrightarrow>
        ToNumber co (field_amount s ''average_amount'') = Inr n) \<and>
     (nullish (field_amount s ''average_amount'') \<and>
      \<not> nullish (field_amount s ''last_amount'') \<longrightarrow>
        ToNumber co (field_amount s ''last_amount'') = Inr n) \<and>
     (nullish (field_amount s ''average_amount'') \<and>
      nullish (field_amount s ''last_amount'') \<longrightarrow> n = Fin 0)"
proof -
  from pickFields_amount [OF ok] obtain n where
    n: "pick_amount co s = Inr n" and it: "item_amount item = JNum n" by blast
  note nn = pickFields_not_nullish [OF ok]
  from guarded_amount_holder [OF nn avg] obtain a1 where
    a1: "guarded_amount s ''average_amount'' = Inr a1"
        "nullish a1 = nullish (field_amount s ''average_amount'')"
        "\<not> nullish a1 \<longrightarrow> a1 = field_amount s ''average_amount''" by blast
  from guarded_amount_holder [OF nn lst] obtain a2 where
    a2: "guarded_amount s ''last_amount'' = Inr a2"
        "nullish a2 = nullish (field_amount s ''last_amount'')"
        "\<not> nullish a2 \<longrightarrow> a2 = field_amount s ''last_amount''" by blast
  from n a1 a2 have
    "(\<not> nullish (field_amount s ''average_amount'') \<longrightarrow>
        ToNumber co (field_amount s ''average_amount'') = Inr n) \<and>
     (nullish (field_amount s ''average_amount'') \<and>
      \<not> nullish (field_amount s ''last_amount'') \<longrightarrow>
        ToNumber co (field_amount s ''last_amount'') = Inr n) \<and>
     (nullish (field_amount s ''average_amount'') \<and>
      nullish (field_amount s ''last_amount'') \<longrightarrow> n = Fin 0)"
    by (auto simp: pick_amount_def split: if_splits)
  with it show ?thesis by blast
qed

text \<open>
  The three cases on the example streams: an average amount of 9.99 gives 9.99, a last
  amount of 5 alone gives 5, neither gives 0.
\<close>

lemma pickFields_amount_examples:
  "pickFields Number_nonnumeric spotify = Inr spotify_item \<and>
   field_amount spotify ''average_amount'' = JNum (Fin (999 / 100)) \<and>
   item_amount spotify_item = JNum (Fin (999 / 100)) \<and>
   pickFields Number_nonnumeric salary = Inr salary_item \<and>
   field_amount salary ''average_amount'' = JUndefined \<and>
   field_amount salary ''last_amount'' = JNum (Fin 5) \<and>
   item_amount salary_item = JNum (Fin 5) \<and>
   pickFields Number_nonnumeric gym = Inr gym_item \<and>
   field_amount gym ''average_amount'' = JUndefined \<and>
   field_amount gym ''last_amount'' = JUndefined \<and>
   item_amount gym_item = JNum (Fin 0)"
proof -
  have p1: "pickFields Number_nonnumeric spotify = Inr spotify_item" by code_simp
  have h1: "amount_holder spotify ''average_amount''" "amount_holder spotify ''last_amount''"
    by code_simp+
  have f1: "field_amount spotify ''average_amount'' = JNum (Fin (999 / 100))" by code_simp
  from pickFields_amount_well_shaped [OF p1 h1] f1
  have r1: "item_amount spotify_item = JNum (Fin (999 / 100))" by auto
  have p2: "pickFields Number_nonnumeric salary = Inr salary_item" by code_simp
  have h2: "amount_holder salary ''average_amount''" "amount_holder salary ''last_amount''"
    by code_simp+
  have f2: "field_amount salary ''average_amount'' = JUndefined"
    "field_amount salary ''last_amount'' = JNum (Fin 5)" by code_simp+
  from pickFields_amount_well_shaped [OF p2 h2] f2
  have r2: "item_amount salary_item = JNum (Fin 5)" by auto
  have p3: "pickFields Number_nonnumeric gym = Inr gym_item" by code_simp
  have h3: "amount_holder gym ''average_amount''" "amount_holder gym ''last_amount''"
    by code_simp+
  have f3: "field_amount gym ''average_amount'' = JUndefined"
    "field_amount gym ''last_amount'' = JUndefined" by code_simp+
  from pickFields_amount_well_shaped [OF p3 h3] f3
  have r3: "item_amount gym_item = JNum (Fin 0)" by auto
  from p1 f1 r1 p2 f2 r2 p3 f3 r3 show ?thesis by blast
qed

text \<open>
  Claim C9. The amount of a normalized item should be the average amount of the stream
  when it has one, else its last amount when it has one, else 0, as the comment above
  the expression says. The code does not do this for a retained stream whose
  \<^verbatim>\<open>average_amount\<close> is the number 0 and whose \<^verbatim>\<open>last_amount.amount\<close> is 7: the stream has
  no \<^verbatim>\<open>average_amount.amount\<close> and has a last amount, and the amount of its item is 0,
  not 7. The guard \<^verbatim>\<open>s.average_amount && s.average_amount.amount\<close> yields the falsy
  holder itself, which \<^verbatim>\<open>??\<close> does not take for missing.
\<close>

theorem zero_average_hides_last_amount:
  "is_active zero_average \<and>
   field_amount zero_average ''average_amount'' = JUndefined \<and>
   field_amount zero_average ''last_amount'' = JNum (Fin 7) \<and>
   (case pickFields Number_nonnumeric zero_average of
      Inr item \<Rightarrow> item_amount item | Inl e \<Rightarrow> JUndefined) = JNum (Fin 0) \<and>
   (case toRecurringItems localeCompare_codeunits Number_nonnumeric
           (JObj [(''outflow_streams'', JArr [zero_average])]) of
      Inr items \<Rightarrow> map item_amount items | Inl e \<Rightarrow> []) = [JNum (Fin 0)]"
  by code_simp

section \<open>Which streams are normalized\<close>

lemma filter_active_Inr: "filter_active xs = Inr ys \<Longrightarrow> ys = filter is_active xs"
proof (induction xs arbitrary: ys)
  case Nil
  then show ?case by simp
next
  case (Cons s ss)
  from Cons.prems obtain flag rest where
    g: "get s ''is_active'' = Inr flag" and r: "filter_active ss = Inr rest"
    and y: "ys = (if truthy flag then s # rest else rest)"
    by (auto simp: and_then_eq_Inr)
  from g have "is_active s = truthy flag"
    by (simp add: is_active_def opt_get_def)
  with Cons.IH [OF r] y show ?case by simp
qed

lemma active_Inr:
  assumes "active arr = Inr ys"
  shows "ys = filter is_active (case arr of JArr xs \<Rightarrow> xs | _ \<Rightarrow> [])"
proof (cases "truthy arr")
  case True
  with assms show ?thesis
    by (cases arr) (auto simp: active_def js_or_def dest: filter_active_Inr)
next
  case False
  with assms have "ys = []"
    by (simp add: active_def js_or_def)
  moreover from False have "(case arr of JArr xs \<Rightarrow> xs | _ \<Rightarrow> []) = []"
    by (cases arr) auto
  ultimately show ?thesis by simp
qed

lemma active_nullish: "nullish v \<Longrightarrow> active v = Inr []"
  by (cases v) (auto simp: active_def js_or_def)

lemma active_empty: "active (JArr []) = Inr []"
  by (simp add: active_def js_or_def)

lemma map_err_append:
  "map_err f xs = Inr a \<Longrightarrow> map_err f ys = Inr b \<Longrightarrow> map_err f (xs @ ys) = Inr (a @ b)"
  by (induction xs arbitrary: a) (auto simp: and_then_eq_Inr)

lemma map_err_set:
  "map_err f xs = Inr ys \<Longrightarrow> y \<in> set ys \<Longrightarrow> \<exists>x\<in>set xs. f x = Inr y"
  by (induction xs arbitrary: ys) (auto simp: and_then_eq_Inr)

lemma insert_by_mset: "insert_by cmp x ys = Inr zs \<Longrightarrow> mset zs = add_mset x (mset ys)"
  by (induction ys arbitrary: zs) (auto simp: and_then_eq_Inr split: if_splits)

lemma sort_by_mset: "sort_by cmp xs = Inr ys \<Longrightarrow> mset ys = mset xs"
  by (induction xs arbitrary: ys) (auto simp: and_then_eq_Inr dest: insert_by_mset)

lemma streams_of_default:
  "streams_of (js_or resp default_streams) k = streams_of resp k"
proof (cases "truthy resp")
  case True
  then show ?thesis by (simp add: js_or_def)
next
  case False
  then have "opt_get resp k = JUndefined" by (rule opt_get_falsy)
  with False show ?thesis
    by (auto simp: js_or_def streams_of_def default_streams_def opt_get_def)
qed

lemma combined_Inr:
  assumes "combined co resp = Inr comb"
  shows "map_err (pickFields co)
           (filter is_active (streams_of resp ''inflow_streams'') @
            filter is_active (streams_of resp ''outflow_streams'')) = Inr comb"
proof -
  let ?st = "js_or resp default_streams"
  have tr: "truthy ?st"
    by (simp add: js_or_def default_streams_def)
  from assms obtain ins in_items outs out_items where
    a1: "active (opt_get ?st ''inflow_streams'') = Inr ins" and
    m1: "map_err (pickFields co) ins = Inr in_items" and
    a2: "active (opt_get ?st ''outflow_streams'') = Inr outs" and
    m2: "map_err (pickFields co) outs = Inr out_items" and
    c: "comb = in_items @ out_items"
    unfolding combined_def Let_def get_truthy [OF tr] by (auto simp: and_then_eq_Inr)
  from active_Inr [OF a1] have "ins = filter is_active (streams_of resp ''inflow_streams'')"
    by (simp add: streams_of_def [symmetric] streams_of_default)
  moreover from active_Inr [OF a2]
  have "outs = filter is_active (streams_of resp ''outflow_streams'')"
    by (simp add: streams_of_def [symmetric] streams_of_default)
  ultimately show ?thesis using m1 m2 c by (simp add: map_err_append)
qed

lemma outflows_streams_of: "outflows resp = streams_of resp ''outflow_streams''"
proof (cases "truthy resp")
  case True
  then show ?thesis by (simp add: outflows_def streams_of_def)
next
  case False
  then show ?thesis by (simp add: outflows_def streams_of_def opt_get_falsy)
qed

text \<open>
  Claim C1, as amended. Whenever it returns, the variant of \<^verbatim>\<open>toRecurringItems\<close> that
  merges both lists returns, in some order, exactly the normalized streams of the
  inflow list and of the outflow list whose \<^verbatim>\<open>is_active\<close> is truthy (a false or absent
  flag excludes a stream). The variant that reads the outflow list only returns exactly
  the normalized active streams of the outflow list: it never includes an inflow stream.
\<close>

theorem toRecurringItems_active_streams:
  "(toRecurringItems lc co resp = Inr out \<longrightarrow>
      (\<exists>items. map_err (pickFields co)
          (filter is_active
             (streams_of resp ''inflow_streams'' @ streams_of resp ''outflow_streams''))
            = Inr items \<and> mset out = mset items)) \<and>
   (toRecurringItems_outflow lc co resp = Inr out' \<longrightarrow>
      (\<exists>items. map_err (pickFields co)
          (filter is_active (streams_of resp ''outflow_streams''))
            = Inr items \<and> mset out' = mset items))"
proof (intro conjI impI)
  assume "toRecurringItems lc co resp = Inr out"
  then obtain comb where c: "combined co resp = Inr comb"
    and s: "sort_by (compare_items lc) comb = Inr out"
    by (auto simp: toRecurringItems_def and_then_eq_Inr)
  from combined_Inr [OF c] sort_by_mset [OF s]
  show "\<exists>items. map_err (pickFields co)
          (filter is_active
             (streams_of resp ''inflow_streams'' @ streams_of resp ''outflow_streams''))
            = Inr items \<and> mset out = mset items"
    by auto
next
  assume "toRecurringItems_outflow lc co resp = Inr out'"
  then obtain outs comb where f: "filter_active (outflows resp) = Inr outs"
    and m: "map_err (pickFields co) outs = Inr comb"
    and s: "sort_by (compare_items lc) comb = Inr out'"
    by (auto simp: toRecurringItems_outflow_def combined_outflow_def and_then_eq_Inr)
  from filter_active_Inr [OF f] m sort_by_mset [OF s]
  show "\<exists>items. map_err (pickFields co)
          (filter is_active (streams_of resp ''outflow_streams''))
            = Inr items \<and> mset out' = mset items"
    by (auto simp: outflows_streams_of)
qed

text \<open>
  On the example payload the merging variant returns the four active streams of both
  lists, the other variant the three of the outflow list.
\<close>

theorem toRecurringItems_active_streams_witness:
  "toRecurringItems localeCompare_codeunits Number_nonnumeric payload =
     Inr [salary_item, netflix_item, spotify_item, gym_item] \<and>
   filter is_active (streams_of payload ''inflow_streams'' @ streams_of payload ''outflow_streams'')
     = [salary, gym, netflix, spotify] \<and>
   mset [salary_item, netflix_item, spotify_item, gym_item] =
     mset [salary_item, gym_item, netflix_item, spotify_item] \<and>
   toRecurringItems_outflow localeCompare_codeunits Number_nonnumeric payload =
     Inr [netflix_item, spotify_item, gym_item] \<and>
   filter is_active (streams_of payload ''outflow_streams'') = [gym, netflix, spotify] \<and>
   mset [netflix_item, spotify_item, gym_item] = mset [gym_item, netflix_item, spotify_item]"
proof -
  have r1: "toRecurringItems localeCompare_codeunits Number_nonnumeric payload =
     Inr [salary_item, netflix_item, spotify_item, gym_item]" by code_simp
  have r2: "toRecurringItems_outflow localeCompare_codeunits Number_nonnumeric payload =
     Inr [netflix_item, spotify_item, gym_item]" by code_simp
  have f1: "filter is_active
       (streams_of payload ''inflow_streams'' @ streams_of payload ''outflow_streams'')
     = [salary, gym, netflix, spotify]" by code_simp
  have f2: "filter is_active (streams_of payload ''outflow_streams'') = [gym, netflix, spotify]"
    by code_simp
  have m1: "map_err (pickFields Number_nonnumeric) [salary, gym, netflix, spotify] =
     Inr [salary_item, gym_item, netflix_item, spotify_item]" by code_simp
  have m2: "map_err (pickFields Number_nonnumeric) [gym, netflix, spotify] =
     Inr [gym_item, netflix_item, spotify_item]" by code_simp
  note t = toRecurringItems_active_streams [of localeCompare_codeunits Number_nonnumeric payload
      "[salary_item, netflix_item, spotify_item, gym_item]"
      "[netflix_item, spotify_item, gym_item]"]
  from t r1 have "mset [salary_item, netflix_item, spotify_item, gym_item] =
     mset [salary_item, gym_item, netflix_item, spotify_item]"
    unfolding f1 m1 by blast
  moreover from t r2 have "mset [netflix_item, spotify_item, gym_item] =
     mset [gym_item, netflix_item, spotify_item]"
    unfolding f2 m2 by blast
  ultimately show ?thesis using r1 r2 f1 f2 by blast
qed

text \<open>
  Against the claim as it stands: the variant that reads the outflow list only drops an
  active stream of the inflow list.
\<close>

theorem outflow_variant_drops_inflow:
  "is_active salary \<and>
   streams_of inflow_payload ''inflow_streams'' = [salary] \<and>
   toRecurringItems_outflow localeCompare_codeunits Number_nonnumeric inflow_payload = Inr [] \<and>
   toRecurringItems localeCompare_codeunits Number_nonnumeric inflow_payload = Inr [salary_item]"
  by code_simp

section \<open>Missing and malformed payloads\<close>

lemma combined_not_object:
  assumes "\<forall>kvs. resp \<noteq> JObj kvs"
  shows "combined co resp = Inr []"
proof (cases "truthy resp")
  case True
  with assms have "get resp k = Inr JUndefined" for k
    by (cases resp) auto
  with True show ?thesis
    by (simp add: combined_def js_or_def active_def)
next
  case False
  then show ?thesis
    by (simp add: combined_def js_or_def default_streams_def active_def)
qed

text \<open>
  Claim C6, as amended. A payload that is absent or not an object (undefined, null, a
  boolean, a number, a string, also an array) gives the empty sequence and no error, and
  so does an object with neither list. In an object, a list that is missing or null counts
  as the empty list: the result is the one for the same payload with that list empty, so
  it is the normalization of the other list and need not be empty.
\<close>

theorem toRecurringItems_missing_lists:
  "((\<forall>kvs. resp \<noteq> JObj kvs) \<longrightarrow> toRecurringItems lc co resp = Inr []) \<and>
   (nullish (opt_get (JObj kvs) ''inflow_streams'') \<and>
    nullish (opt_get (JObj kvs) ''outflow_streams'')
      \<longrightarrow> toRecurringItems lc co (JObj kvs) = Inr []) \<and>
   (nullish (opt_get (JObj kin) ''inflow_streams'') \<longrightarrow>
      toRecurringItems lc co (JObj kin) =
      toRecurringItems lc co (JObj ((''inflow_streams'', JArr []) # kin))) \<and>
   (nullish (opt_get (JObj kout) ''outflow_streams'') \<longrightarrow>
      toRecurringItems lc co (JObj kout) =
      toRecurringItems lc co (JObj ((''outflow_streams'', JArr []) # kout)))"
proof (intro conjI impI)
  assume "\<forall>kvs. resp \<noteq> JObj kvs"
  then show "toRecurringItems lc co resp = Inr []"
    by (simp add: toRecurringItems_def combined_not_object)
next
  assume "nullish (opt_get (JObj kvs) ''inflow_streams'') \<and>
          nullish (opt_get (JObj kvs) ''outflow_streams'')"
  then show "toRecurringItems lc co (JObj kvs) = Inr []"
    by (simp add: toRecurringItems_def combined_def js_or_def opt_get_def active_nullish)
next
  assume "nullish (opt_get (JObj kin) ''inflow_streams'')"
  then have "combined co (JObj kin) = combined co (JObj ((''inflow_streams'', JArr []) # kin))"
    by (simp add: combined_def js_or_def opt_get_def active_nullish active_empty)
  then show "toRecurringItems lc co (JObj kin) =
      toRecurringItems lc co (JObj ((''inflow_streams'', JArr []) # kin))"
    by (simp add: toRecurringItems_def)
next
  assume "nullish (opt_get (JObj kout) ''outflow_streams'')"
  then have "combined co (JObj kout) =
      combined co (JObj ((''outflow_streams'', JArr []) # kout))"
    by (simp add: combined_def js_or_def opt_get_def active_nullish active_empty)
  then show "toRecurringItems lc co (JObj kout) =
      toRecurringItems lc co (JObj ((''outflow_streams'', JArr []) # kout))"
    by (simp add: toRecurringItems_def)
qed

text \<open>
  Null, the empty object, and a payload with one list each: the one without inflow list
  gives the item of its outflow stream, the one without outflow list the item of its
  inflow stream.
\<close>

theorem toRecurringItems_missing_lists_witness:
  "toRecurringItems localeCompare_codeunits Number_nonnumeric JNull = Inr [] \<and>
   toRecurringItems localeCompare_codeunits Number_nonnumeric (JObj []) = Inr [] \<and>
   toRecurringItems localeCompare_codeunits Number_nonnumeric
       (JObj [(''outflow_streams'', JArr [spotify])]) =
     toRecurringItems localeCompare_codeunits Number_nonnumeric
       (JObj [(''inflow_streams'', JArr []), (''outflow_streams'', JArr [spotify])]) \<and>
   toRecurringItems localeCompare_codeunits Number_nonnumeric
       (JObj [(''inflow_streams'', JArr [salary])]) =
     toRecurringItems localeCompare_codeunits Number_nonnumeric
       (JObj [(''outflow_streams'', JArr []), (''inflow_streams'', JArr [salary])])"
proof -
  have h1: "\<forall>kvs. JNull \<noteq> JObj kvs" by simp
  have h2: "nullish (opt_get (JObj []) ''inflow_streams'') \<and>
            nullish (opt_get (JObj []) ''outflow_streams'')"
    by (simp add: opt_get_def)
  have h3: "nullish (opt_get (JObj [(''outflow_streams'', JArr [spotify])]) ''inflow_streams'')"
    by (simp add: opt_get_def)
  have h4: "nullish (opt_get (JObj [(''inflow_streams'', JArr [salary])]) ''outflow_streams'')"
    by (simp add: opt_get_def)
  from toRecurringItems_missing_lists [of JNull localeCompare_codeunits Number_nonnumeric
      "[]" "[(''outflow_streams'', JArr [spotify])]" "[(''inflow_streams'', JArr [salary])]"]
    h1 h2 h3 h4
  show ?thesis by blast
qed

text \<open>
  Against the claim as it stands: a payload without inflow list whose outflow list holds
  an active stream does not give the empty sequence.
\<close>

theorem missing_inflow_list_not_empty:
  "opt_get outflow_payload ''inflow_streams'' = JUndefined \<and>
   toRecurringItems localeCompare_codeunits Number_nonnumeric outflow_payload =
     Inr [spotify_item]"
  by code_simp

section \<open>The order of the normalized items\<close>

lemma insert_by_insort_key:
  assumes "\<forall>y\<in>set ys. \<exists>c. cmp x y = Inr c \<and> (c \<le> 0 \<longleftrightarrow> f x \<le> f y)"
  shows "insert_by cmp x ys = Inr (insort_key f x ys)"
  using assms by (induction ys) auto

lemma sort_by_sort_key:
  assumes "\<forall>x\<in>set xs. \<forall>y\<in>set xs. \<exists>c. cmp x y = Inr c \<and> (c \<le> 0 \<longleftrightarrow> f x \<le> f y)"
  shows "sort_by cmp xs = Inr (sort_key f xs)"
  using assms
proof (induction xs)
  case Nil
  then show ?case by simp
next
  case (Cons x xs)
  then have "sort_by cmp xs = Inr (sort_key f xs)" by simp
  moreover from Cons.prems
  have "insert_by cmp x (sort_key f xs) = Inr (insort_key f x (sort_key f xs))"
    by (intro insert_by_insort_key) simp
  ultimately show ?case by simp
qed

lemma pickFields_object: "pickFields co s = Inr item \<Longrightarrow> \<exists>kvs. item = JObj kvs"
  by (auto simp: pickFields_def and_then_eq_Inr)

lemma combined_object:
  assumes "combined co resp = Inr comb" and "a \<in> set comb"
  shows "\<exists>kvs. a = JObj kvs"
  using map_err_set [OF combined_Inr [OF assms(1)] assms(2)] pickFields_object by blast

lemma compare_items_key:
  fixes k :: "string \<Rightarrow> 'k::linorder"
  assumes a: "a = JObj ka" and b: "b = JObj kb"
    and sa: "dated a \<longrightarrow> (\<exists>s. item_date a = JStr s)"
    and lex: "dated a \<and> dated b \<longrightarrow>
       (\<exists>c. lc (date_text a) (item_date b) = Inr c \<and>
            (c < 0 \<longleftrightarrow> k (date_text a) < k (date_text b)) \<and>
            (c = 0 \<longleftrightarrow> k (date_text a) = k (date_text b)))"
  shows "\<exists>c. compare_items lc a b = Inr c \<and> (c \<le> 0 \<longleftrightarrow> date_key k a \<le> date_key k b)"
proof -
  have ga: "get a ''predicted_next_date'' = Inr (item_date a)"
    and gb: "get b ''predicted_next_date'' = Inr (item_date b)"
    using a b by (simp_all add: item_date_def opt_get_def)
  show ?thesis
  proof (cases "dated a")
    case False
    then show ?thesis
      by (cases "dated b")
        (simp_all add: compare_items_def ga gb js_or_def dated_def date_key_def Let_def)
  next
    case da: True
    show ?thesis
    proof (cases "dated b")
      case False
      with da show ?thesis
        by (simp add: compare_items_def ga gb js_or_def dated_def date_key_def Let_def)
    next
      case db: True
      from da sa obtain s where s: "item_date a = JStr s" by blast
      then have ts: "date_text a = s"
        by (simp add: date_text_def)
      from da db lex obtain c where
        c: "lc s (item_date b) = Inr c" "c < 0 \<longleftrightarrow> k s < k (date_text b)"
           "c = 0 \<longleftrightarrow> k s = k (date_text b)"
        unfolding ts by blast
      have "c \<le> 0 \<longleftrightarrow> k s \<le> k (date_text b)"
        using c(2,3) by (auto simp: le_less)
      moreover have "compare_items lc a b = Inr c"
        using da db s c(1) by (simp add: compare_items_def ga gb js_or_def dated_def Let_def)
      ultimately show ?thesis using da db ts by (simp add: date_key_def)
    qed
  qed
qed

lemma sorted_by_date_key:
  fixes k :: "string \<Rightarrow> 'k::linorder"
  assumes comb: "combined co resp = Inr comb"
    and run: "toRecurringItems lc co resp = Inr out"
    and col: "dates_collate k lc out"
  shows "out = sort_key (date_key k) comb"
proof -
  from run comb have srt: "sort_by (compare_items lc) comb = Inr out"
    by (simp add: toRecurringItems_def)
  then have set_eq: "set out = set comb"
    using sort_by_mset mset_eq_setD by blast
  have "\<forall>x\<in>set comb. \<forall>y\<in>set comb.
          \<exists>c. compare_items lc x y = Inr c \<and> (c \<le> 0 \<longleftrightarrow> date_key k x \<le> date_key k y)"
  proof (intro ballI)
    fix x y assume x: "x \<in> set comb" and y: "y \<in> set comb"
    from combined_object [OF comb x] obtain kx where kx: "x = JObj kx" by blast
    from combined_object [OF comb y] obtain ky where ky: "y = JObj ky" by blast
    from col x y set_eq have "dated x \<longrightarrow> (\<exists>s. item_date x = JStr s)"
      and "dated x \<and> dated y \<longrightarrow>
       (\<exists>c. lc (date_text x) (item_date y) = Inr c \<and>
            (c < 0 \<longleftrightarrow> k (date_text x) < k (date_text y)) \<and>
            (c = 0 \<longleftrightarrow> k (date_text x) = k (date_text y)))"
      unfolding dates_collate_def by blast+
    then show "\<exists>c. compare_items lc x y = Inr c \<and>
        (c \<le> 0 \<longleftrightarrow> date_key k x \<le> date_key k y)"
      by (rule compare_items_key [OF kx ky])
  qed
  from sort_by_sort_key [OF this] srt show ?thesis by simp
qed

lemma codeunits_collate:
  assumes "\<forall>a\<in>set xs. dated a \<longrightarrow> (\<exists>s. item_date a = JStr s)"
  shows "dates_collate (\<lambda>s. s) localeCompare_codeunits xs"
  unfolding dates_collate_def
proof (intro conjI ballI impI)
  fix a assume "a \<in> set xs" and "dated a"
  with assms show "\<exists>s. item_date a = JStr s" by blast
next
  fix a b assume "a \<in> set xs" and b: "b \<in> set xs" and d: "dated a \<and> dated b"
  with assms obtain t where "item_date b = JStr t" by blast
  then show "\<exists>c. localeCompare_codeunits (date_text a) (item_date b) = Inr c \<and>
       (c < 0 \<longleftrightarrow> date_text a < date_text b) \<and> (c = 0 \<longleftrightarrow> date_text a = date_text b)"
    by (auto simp: localeCompare_codeunits_def date_text_def)
qed

lemma alphabetic_collate:
  assumes "\<forall>a\<in>set xs. dated a \<longrightarrow> (\<exists>s. item_date a = JStr s)"
  shows "dates_collate alphabetic_key localeCompare_alphabetic xs"
  unfolding dates_collate_def
proof (intro conjI ballI impI)
  fix a assume "a \<in> set xs" and "dated a"
  with assms show "\<exists>s. item_date a = JStr s" by blast
next
  fix a b assume "a \<in> set xs" and b: "b \<in> set xs" and d: "dated a \<and> dated b"
  with assms obtain t where "item_date b = JStr t" by blast
  then show "\<exists>c. localeCompare_alphabetic (date_text a) (item_date b) = Inr c \<and>
       (c < 0 \<longleftrightarrow> alphabetic_key (date_text a) < alphabetic_key (date_text b)) \<and>
       (c = 0 \<longleftrightarrow> alphabetic_key (date_text a) = alphabetic_key (date_text b))"
    by (auto simp: localeCompare_alphabetic_def date_text_def)
qed

text \<open>
  Claim C2, as amended. Let \<^verbatim>\<open>toRecurringItems\<close> return \<open>out\<close> for a payload whose array
  before the sort is \<open>comb\<close>, the dates of the items being strings on which
  \<^verbatim>\<open>localeCompare\<close> is a collation with the sort key \<open>k\<close>. Then of two items of \<open>out\<close> that
  both have a date the earlier one has the smaller or equal key, that is,
  \<^verbatim>\<open>localeCompare\<close> of its date with the date of the later one is not positive; no item
  without date comes before an item with one; and the items with one and the same date,
  like the items without date, stand in \<open>out\<close> in the order they have in \<open>comb\<close>. The
  order of the dates is the one of \<^verbatim>\<open>localeCompare\<close>: it is the lexicographic order of
  the strings where \<open>k\<close> is the identity, as on ISO-8601 dates, and not in general.
\<close>

theorem toRecurringItems_order:
  fixes k :: "string \<Rightarrow> 'k::linorder"
  assumes comb: "combined co resp = Inr comb"
    and run: "toRecurringItems lc co resp = Inr out"
    and col: "dates_collate k lc out"
  shows "(\<forall>i j. i < j \<and> j < length out \<longrightarrow>
            (dated (out ! i) \<and> dated (out ! j) \<longrightarrow>
               k (date_text (out ! i)) \<le> k (date_text (out ! j)) \<and>
               (\<exists>c. lc (date_text (out ! i)) (item_date (out ! j)) = Inr c \<and> c \<le> 0)) \<and>
            (dated (out ! j) \<longrightarrow> dated (out ! i))) \<and>
         (\<forall>d. filter (\<lambda>a. item_date a = d) out = filter (\<lambda>a. item_date a = d) comb)"
proof -
  note out = sorted_by_date_key [OF comb run col]
  have sorted: "sorted (map (date_key k) out)"
    unfolding out by (rule sorted_sort_key)
  have p1: "\<forall>i j. i < j \<and> j < length out \<longrightarrow>
            (dated (out ! i) \<and> dated (out ! j) \<longrightarrow>
               k (date_text (out ! i)) \<le> k (date_text (out ! j)) \<and>
               (\<exists>c. lc (date_text (out ! i)) (item_date (out ! j)) = Inr c \<and> c \<le> 0)) \<and>
            (dated (out ! j) \<longrightarrow> dated (out ! i))"
  proof (intro allI impI)
    fix i j assume ij: "i < j \<and> j < length out"
    then have "map (date_key k) out ! i \<le> map (date_key k) out ! j"
      using sorted by (simp add: sorted_iff_nth_mono)
    with ij have le: "date_key k (out ! i) \<le> date_key k (out ! j)" by simp
    from ij have mem: "out ! i \<in> set out" "out ! j \<in> set out" by simp_all
    have key: "dated (out ! i) \<and> dated (out ! j) \<longrightarrow>
        k (date_text (out ! i)) \<le> k (date_text (out ! j))"
      using le by (auto simp: date_key_def split: if_splits)
    have cmp: "dated (out ! i) \<and> dated (out ! j) \<longrightarrow>
        (\<exists>c. lc (date_text (out ! i)) (item_date (out ! j)) = Inr c \<and> c \<le> 0)"
    proof
      assume d: "dated (out ! i) \<and> dated (out ! j)"
      with col mem obtain c where
        c: "lc (date_text (out ! i)) (item_date (out ! j)) = Inr c"
           "c < 0 \<longleftrightarrow> k (date_text (out ! i)) < k (date_text (out ! j))"
           "c = 0 \<longleftrightarrow> k (date_text (out ! i)) = k (date_text (out ! j))"
        unfolding dates_collate_def by blast
      from key d c(2,3) have "c \<le> 0" by (auto simp: le_less)
      with c(1) show "\<exists>c. lc (date_text (out ! i)) (item_date (out ! j)) = Inr c \<and> c \<le> 0"
        by blast
    qed
    have und: "dated (out ! j) \<longrightarrow> dated (out ! i)"
      using le by (auto simp: date_key_def split: if_splits)
    from key cmp und
    show "(dated (out ! i) \<and> dated (out ! j) \<longrightarrow>
               k (date_text (out ! i)) \<le> k (date_text (out ! j)) \<and>
               (\<exists>c. lc (date_text (out ! i)) (item_date (out ! j)) = Inr c \<and> c \<le> 0)) \<and>
            (dated (out ! j) \<longrightarrow> dated (out ! i))"
      by blast
  qed
  have p2: "\<forall>d. filter (\<lambda>a. item_date a = d) out = filter (\<lambda>a. item_date a = d) comb"
  proof
    fix d
    let ?k = "date_key k (JObj [(''predicted_next_date'', d)])"
    have imp: "item_date a = d \<Longrightarrow> date_key k a = ?k" for a
      by (simp add: date_key_def dated_def date_text_def item_date_def opt_get_def)
    have "filter (\<lambda>a. item_date a = d) xs =
          filter (\<lambda>a. item_date a = d) (filter (\<lambda>a. date_key k a = ?k) xs)" for xs
      using imp by (auto intro: filter_cong)
    then show "filter (\<lambda>a. item_date a = d) out = filter (\<lambda>a. item_date a = d) comb"
      unfolding out by (metis sort_key_stable)
  qed
  from p1 p2 show ?thesis by blast
qed

text \<open>
  On the example payload, whose dates are ISO-8601 dates, the array before the sort is
  salary, gym, Netflix, Spotify. The result has salary (1 September) first, then Netflix
  and Spotify (both 14 September) in that order, then the gym, which has no date; the
  dates ascend lexicographically. On the payload dated by letters the stream dated
  \<^verbatim>\<open>a\<close> comes first, as the alphabetic collation has it.
\<close>

theorem toRecurringItems_order_witness:
  "combined Number_nonnumeric payload = Inr [salary_item, gym_item, netflix_item, spotify_item] \<and>
   toRecurringItems localeCompare_codeunits Number_nonnumeric payload =
     Inr [salary_item, netflix_item, spotify_item, gym_item] \<and>
   dates_collate (\<lambda>s. s) localeCompare_codeunits
     [salary_item, netflix_item, spotify_item, gym_item] \<and>
   date_text salary_item \<le> date_text netflix_item \<and>
   date_text netflix_item \<le> date_text spotify_item \<and>
   dated spotify_item \<and> dated salary_item \<and> \<not> dated gym_item \<and>
   filter (\<lambda>a. item_date a = JStr ''2025-09-14'')
     [salary_item, netflix_item, spotify_item, gym_item] = [netflix_item, spotify_item] \<and>
   toRecurringItems localeCompare_alphabetic Number_nonnumeric letters_payload =
     Inr [item_a, item_B] \<and>
   dates_collate alphabetic_key localeCompare_alphabetic [item_a, item_B] \<and>
   alphabetic_key (date_text item_a) \<le> alphabetic_key (date_text item_B)"
proof -
  let ?out = "[salary_item, netflix_item, spotify_item, gym_item]"
  have c: "combined Number_nonnumeric payload =
      Inr [salary_item, gym_item, netflix_item, spotify_item]" by code_simp
  have r: "toRecurringItems localeCompare_codeunits Number_nonnumeric payload = Inr ?out"
    by code_simp
  have d: "dated salary_item" "dated netflix_item" "dated spotify_item" "\<not> dated gym_item"
    by code_simp+
  have "\<forall>a\<in>set ?out. dated a \<longrightarrow> (\<exists>s. item_date a = JStr s)"
    by (simp add: dated_def item_date_def opt_get_def salary_item_def netflix_item_def
        spotify_item_def gym_item_def)
  then have col: "dates_collate (\<lambda>s. s) localeCompare_codeunits ?out"
    by (rule codeunits_collate)
  note t = toRecurringItems_order [OF c r col]
  from t have o: "i < j \<and> j < length ?out \<longrightarrow>
            (dated (?out ! i) \<and> dated (?out ! j) \<longrightarrow>
               date_text (?out ! i) \<le> date_text (?out ! j))" for i j
    by blast
  from o [of 0 1] d have o1: "date_text salary_item \<le> date_text netflix_item" by simp
  from o [of 1 2] d have o2: "date_text netflix_item \<le> date_text spotify_item" by simp
  from t have "filter (\<lambda>a. item_date a = JStr ''2025-09-14'') ?out =
      filter (\<lambda>a. item_date a = JStr ''2025-09-14'')
        [salary_item, gym_item, netflix_item, spotify_item]"
    by blast
  also have "\<dots> = [netflix_item, spotify_item]" by code_simp
  finally have st: "filter (\<lambda>a. item_date a = JStr ''2025-09-14'') ?out =
      [netflix_item, spotify_item]" .
  have c': "combined Number_nonnumeric letters_payload = Inr [item_B, item_a]" by code_simp
  have r': "toRecurringItems localeCompare_alphabetic Number_nonnumeric letters_payload =
      Inr [item_a, item_B]" by code_simp
  have d': "dated item_a" "dated item_B" by code_simp+
  have "\<forall>a\<in>set [item_a, item_B]. dated a \<longrightarrow> (\<exists>s. item_date a = JStr s)"
    by (simp add: dated_def item_date_def opt_get_def item_a_def item_B_def)
  then have col': "dates_collate alphabetic_key localeCompare_alphabetic [item_a, item_B]"
    by (rule alphabetic_collate)
  note t' = toRecurringItems_order [OF c' r' col']
  from t' have "0 < Suc 0 \<and> Suc 0 < length [item_a, item_B] \<longrightarrow>
            (dated ([item_a, item_B] ! 0) \<and> dated ([item_a, item_B] ! Suc 0) \<longrightarrow>
               alphabetic_key (date_text ([item_a, item_B] ! 0)) \<le>
               alphabetic_key (date_text ([item_a, item_B] ! Suc 0)))"
    by blast
  with d' have o3: "alphabetic_key (date_text item_a) \<le> alphabetic_key (date_text item_B)"
    by simp
  from c r col o1 o2 d st r' col' o3 show ?thesis by blast
qed

text \<open>
  Against the claim as it stands: of two streams whose dates are the strings \<^verbatim>\<open>B\<close> and
  \<^verbatim>\<open>a\<close> the one dated \<^verbatim>\<open>a\<close> comes first in the result, since \<^verbatim>\<open>"B".localeCompare("a")\<close>
  is positive; lexicographically \<^verbatim>\<open>a\<close> is not smaller than or equal to \<^verbatim>\<open>B\<close>.
\<close>

theorem alphabetic_order_not_lexicographic:
  "toRecurringItems localeCompare_alphabetic Number_nonnumeric letters_payload =
     Inr [item_a, item_B] \<and>
   dated item_a \<and> dated item_B \<and>
   date_text item_a = ''a'' \<and> date_text item_B = ''B'' \<and>
   \<not> date_text item_a \<le> date_text item_B"
  by code_simp

section \<open>Reading the cache\<close>

lemma fst_readCache:
  "fst (readCache co now ls uid) =
     (if \<not> readable ls then None
      else (case slots ls (cacheKey uid) of
              None \<Rightarrow> None
            | Some (Text s) \<Rightarrow> None
            | Some (JsonText obj) \<Rightarrow>
                (case validate_entry co now obj of Inl e \<Rightarrow> None | Inr res \<Rightarrow> res)))"
  by (simp add: readCache_def getItem_def split: option.splits stored.splits)

lemma snd_readCache:
  "snd (readCache co now ls uid) = ls\<lparr>trace := trace ls @ [GetItem (cacheKey uid)]\<rparr>"
  by (simp add: readCache_def getItem_def)

lemma validate_entry_Some:
  "validate_entry co now obj = Inr (Some xs) \<longleftrightarrow>
     opt_get obj ''items'' = JArr xs \<and> truthy (opt_get obj ''ts'') \<and>
     (\<exists>n. ToNumber co (opt_get obj ''ts'') = Inr n \<and>
          \<not> js_gt (js_sub (date_now now) n) (date_now CACHE_TTL_MS))"
proof (cases "\<exists>ys. opt_get obj ''items'' = JArr ys")
  case False
  then show ?thesis
    by (cases "opt_get obj ''items''") (auto simp: validate_entry_def Let_def)
next
  case True
  then obtain ys where ys: "opt_get obj ''items'' = JArr ys" by blast
  then have "\<not> nullish obj"
    by (cases obj) (auto simp: opt_get_def)
  then have g: "get obj ''ts'' = Inr (opt_get obj ''ts'')"
    by (rule get_not_nullish)
  show ?thesis
    by (auto simp: validate_entry_def Let_def ys g and_then_eq_Inr split: if_splits)
qed

lemma readCache_Some:
  "fst (readCache co now ls uid) = Some xs \<longleftrightarrow>
     readable ls \<and>
     (\<exists>obj. slots ls (cacheKey uid) = Some (JsonText obj) \<and>
        opt_get obj ''items'' = JArr xs \<and> truthy (opt_get obj ''ts'') \<and>
        (\<exists>n. ToNumber co (opt_get obj ''ts'') = Inr n \<and>
             \<not> js_gt (js_sub (date_now now) n) (date_now CACHE_TTL_MS)))"
proof -
  have "(case validate_entry co now obj of Inl e \<Rightarrow> None | Inr res \<Rightarrow> res) = Some xs
        \<longleftrightarrow> validate_entry co now obj = Inr (Some xs)" for obj
    by (cases "validate_entry co now obj") auto
  then show ?thesis
    by (auto simp: fst_readCache validate_entry_Some split: option.splits stored.splits)
qed

lemma readCache_None:
  "fst (readCache co now ls uid) = None \<longleftrightarrow> (\<forall>xs. fst (readCache co now ls uid) \<noteq> Some xs)"
  by (cases "fst (readCache co now ls uid)") auto

lemma elapsed_exceeds:
  "js_gt (js_sub (date_now t1) (Fin (of_int t0))) (date_now CACHE_TTL_MS)
     \<longleftrightarrow> t1 - t0 > CACHE_TTL_MS"
proof -
  have "js_gt (js_sub (date_now t1) (Fin (of_int t0))) (date_now CACHE_TTL_MS)
        \<longleftrightarrow> (of_int CACHE_TTL_MS :: rat) < of_int (t1 - t0)"
    by (simp add: date_now_def)
  then show ?thesis by (simp only: of_int_less_iff)
qed

text \<open>
  Claim C3, as amended. \<^verbatim>\<open>readCache\<close> returns null when the store cannot be read, when
  there is no entry under the key of the identity, when the entry is not JSON, when its
  \<^verbatim>\<open>items\<close> is not an array, when its \<^verbatim>\<open>ts\<close> is falsy (missing, null, false, 0, NaN or
  the empty string), when converting \<^verbatim>\<open>ts\<close> to a number throws, and when the clock minus
  that number exceeds the time to live. In every other case it returns the stored items:
  a truthy \<^verbatim>\<open>ts\<close> need not be a number, it is converted to one.
\<close>

theorem readCache_absent_or_items:
  "(\<not> readable ls \<longrightarrow> fst (readCache co now ls uid) = None) \<and>
   (slots ls (cacheKey uid) = None \<longrightarrow> fst (readCache co now ls uid) = None) \<and>
   (\<forall>s. slots ls (cacheKey uid) = Some (Text s) \<longrightarrow> fst (readCache co now ls uid) = None) \<and>
   (\<forall>obj. slots ls (cacheKey uid) = Some (JsonText obj) \<longrightarrow>
      ((\<forall>xs. opt_get obj ''items'' \<noteq> JArr xs) \<longrightarrow> fst (readCache co now ls uid) = None) \<and>
      (\<not> truthy (opt_get obj ''ts'') \<longrightarrow> fst (readCache co now ls uid) = None) \<and>
      (\<forall>e. ToNumber co (opt_get obj ''ts'') = Inl e \<longrightarrow>
           fst (readCache co now ls uid) = None) \<and>
      (\<forall>n. ToNumber co (opt_get obj ''ts'') = Inr n \<and>
           js_gt (js_sub (date_now now) n) (date_now CACHE_TTL_MS) \<longrightarrow>
           fst (readCache co now ls uid) = None) \<and>
      (\<forall>xs n. readable ls \<and> opt_get obj ''items'' = JArr xs \<and>
           truthy (opt_get obj ''ts'') \<and> ToNumber co (opt_get obj ''ts'') = Inr n \<and>
           \<not> js_gt (js_sub (date_now now) n) (date_now CACHE_TTL_MS) \<longrightarrow>
           fst (readCache co now ls uid) = Some xs))"
  unfolding readCache_None readCache_Some by auto

text \<open>
  No entry, an entry that is not JSON, one without items, one with the timestamp 0, an
  expired one and a fresh one.
\<close>

theorem readCache_absent_or_items_witness:
  "fst (readCache Number_nonnumeric 1762000001000 empty_storage ''u1'') = None \<and>
   fst (readCache Number_nonnumeric 1762000001000
          (empty_storage\<lparr>slots := [cacheKey ''u1'' \<mapsto> Text ''{not json'']\<rparr>) ''u1'') = None \<and>
   fst (readCache Number_nonnumeric 1762000001000
          (storage_holding (JObj [(''ts'', JNum (Fin 1762000000000))])) ''u1'') = None \<and>
   fst (readCache Number_nonnumeric 1762000001000
          (storage_holding (JObj [(''ts'', JNum (Fin 0)), (''items'', JArr [])])) ''u1'') = None \<and>
   fst (readCache Number_nonnumeric 1762043200001 (storage_holding fresh_entry) ''u1'') = None \<and>
   fst (readCache Number_nonnumeric 1762043200000 (storage_holding fresh_entry) ''u1'') =
     Some [spotify_item]"
proof -
  let ?co = Number_nonnumeric
  have s1: "slots empty_storage (cacheKey ''u1'') = None" by code_simp
  from readCache_absent_or_items [of empty_storage ?co 1762000001000 "''u1''"] s1
  have w1: "fst (readCache ?co 1762000001000 empty_storage ''u1'') = None" by blast
  let ?l2 = "empty_storage\<lparr>slots := [cacheKey ''u1'' \<mapsto> Text ''{not json'']\<rparr>"
  have s2: "slots ?l2 (cacheKey ''u1'') = Some (Text ''{not json'')" by simp
  from readCache_absent_or_items [of ?l2 ?co 1762000001000 "''u1''"] s2
  have w2: "fst (readCache ?co 1762000001000 ?l2 ''u1'') = None" by blast
  have s: "slots (storage_holding e) (cacheKey ''u1'') = Some (JsonText e)" for e
    by (simp add: storage_holding_def)
  let ?e3 = "JObj [(''ts'', JNum (Fin 1762000000000))]"
  have h3: "\<forall>xs. opt_get ?e3 ''items'' \<noteq> JArr xs" by (simp add: opt_get_def)
  from readCache_absent_or_items [of "storage_holding ?e3" ?co 1762000001000 "''u1''"] s h3
  have w3: "fst (readCache ?co 1762000001000 (storage_holding ?e3) ''u1'') = None" by blast
  let ?e4 = "JObj [(''ts'', JNum (Fin 0)), (''items'', JArr [])]"
  have h4: "\<not> truthy (opt_get ?e4 ''ts'')" by (simp add: opt_get_def)
  from readCache_absent_or_items [of "storage_holding ?e4" ?co 1762000001000 "''u1''"] s h4
  have w4: "fst (readCache ?co 1762000001000 (storage_holding ?e4) ''u1'') = None" by blast
  have rd: "readable (storage_holding fresh_entry)" by code_simp
  have it: "opt_get fresh_entry ''items'' = JArr [spotify_item]" by code_simp
  have tr: "truthy (opt_get fresh_entry ''ts'')" by code_simp
  have tn: "ToNumber ?co (opt_get fresh_entry ''ts'') = Inr (Fin (of_int 1762000000000))"
    by code_simp
  have h5: "js_gt (js_sub (date_now 1762043200001) (Fin (of_int 1762000000000)))
              (date_now CACHE_TTL_MS)"
    unfolding elapsed_exceeds by (simp add: CACHE_TTL_MS_def)
  have h6: "\<not> js_gt (js_sub (date_now 1762043200000) (Fin (of_int 1762000000000)))
              (date_now CACHE_TTL_MS)"
    unfolding elapsed_exceeds by (simp add: CACHE_TTL_MS_def)
  from readCache_absent_or_items [of "storage_holding fresh_entry" ?co 1762043200001 "''u1''"]
    s tn h5
  have w5: "fst (readCache ?co 1762043200001 (storage_holding fresh_entry) ''u1'') = None"
    by blast
  from readCache_absent_or_items [of "storage_holding fresh_entry" ?co 1762043200000 "''u1''"]
    s rd it tr tn h6
  have w6: "fst (readCache ?co 1762043200000 (storage_holding fresh_entry) ''u1'') =
      Some [spotify_item]"
    by blast
  from w1 w2 w3 w4 w5 w6 show ?thesis by blast
qed

text \<open>
  Against the claim as it stands: an entry whose timestamp is the string \<^verbatim>\<open>abc\<close> has no
  numeric timestamp, and its items are returned. The string converts to NaN, and NaN is
  not greater than the time to live, at any clock.
\<close>

theorem text_timestamp_accepted:
  "opt_get text_ts_entry ''ts'' = JStr ''abc'' \<and>
   slots (storage_holding text_ts_entry) (cacheKey ''u1'') = Some (JsonText text_ts_entry) \<and>
   fst (readCache Number_nonnumeric 1762000001000 (storage_holding text_ts_entry) ''u1'') =
     Some [spotify_item]"
  by code_simp

section \<open>Writing the cache and reading it back\<close>

lemma writeCache_writable:
  assumes "writable ls"
  shows "slots (writeCache t0 ls uid items) (cacheKey uid) =
           Some (JsonText (JObj [(''ts'', JNum (date_now t0)),
                                 (''items'', json_norm (JArr items))]))"
    and "readable (writeCache t0 ls uid items) = readable ls"
  using assms by (simp_all add: writeCache_def setItem_def JSON_stringify_def date_now_def)

text \<open>
  Claim C4, as amended. On a store that can be written and read, \<^verbatim>\<open>writeCache\<close> of a list
  of items at a clock \<open>t0\<close> other than 0, followed by \<^verbatim>\<open>readCache\<close> at a clock \<open>t1\<close> with
  \<open>t1 - t0\<close> at most the time to live, returns what serialisation to JSON keeps of the
  list: the list itself when it holds JSON values only, otherwise the list with every
  undefined property dropped and every NaN or infinite number replaced by null.
  Whatever the items and \<open>t0\<close>, \<^verbatim>\<open>readCache\<close> returns null once \<open>t1 - t0\<close> exceeds the time
  to live; it also returns null when the entry was written at the clock 0.
\<close>

theorem writeCache_readCache_roundtrip:
  assumes w: "writable ls" and r: "readable ls"
  shows "(t0 \<noteq> 0 \<and> t1 - t0 \<le> CACHE_TTL_MS \<longrightarrow>
            (\<exists>got. fst (readCache co t1 (writeCache t0 ls uid items) uid) = Some got \<and>
                    JArr got = json_norm (JArr items) \<and>
                    (json_value (JArr items) \<longrightarrow> got = items))) \<and>
         (t1 - t0 > CACHE_TTL_MS \<longrightarrow>
            fst (readCache co t1 (writeCache t0 ls uid items) uid) = None) \<and>
         (t0 = 0 \<longrightarrow>
            fst (readCache co t1 (writeCache t0 ls uid items) uid) = None)"
proof (intro conjI impI)
  let ?ls = "writeCache t0 ls uid items"
  let ?got = "map (\<lambda>v. if v = JUndefined then JNull else v) (map json_norm items)"
  assume a: "t0 \<noteq> 0 \<and> t1 - t0 \<le> CACHE_TTL_MS"
  have n: "json_norm (JArr items) = JArr ?got" by simp
  have "slots ?ls (cacheKey uid) =
      Some (JsonText (JObj [(''ts'', JNum (date_now t0)), (''items'', JArr ?got)]))"
    using writeCache_writable(1) [OF w] by simp
  moreover have "readable ?ls"
    using writeCache_writable(2) [OF w] r by simp
  moreover have "\<not> js_gt (js_sub (date_now t1) (Fin (of_int t0))) (date_now CACHE_TTL_MS)"
    using a by (simp add: elapsed_exceeds)
  ultimately have "fst (readCache co t1 ?ls uid) = Some ?got"
    using a unfolding readCache_Some by (auto simp: opt_get_def date_now_def)
  moreover have "json_value (JArr items) \<longrightarrow> ?got = items"
    unfolding json_value_def n by simp
  ultimately show "\<exists>got. fst (readCache co t1 ?ls uid) = Some got \<and>
      JArr got = json_norm (JArr items) \<and> (json_value (JArr items) \<longrightarrow> got = items)"
    using n by simp
next
  let ?ls = "writeCache t0 ls uid items"
  assume a: "t1 - t0 > CACHE_TTL_MS"
  then have "js_gt (js_sub (date_now t1) (Fin (of_int t0))) (date_now CACHE_TTL_MS)"
    by (simp add: elapsed_exceeds)
  then show "fst (readCache co t1 ?ls uid) = None"
    unfolding readCache_None readCache_Some using writeCache_writable(1) [OF w]
    by (auto simp: opt_get_def date_now_def)
next
  let ?ls = "writeCache t0 ls uid items"
  assume "t0 = 0"
  then show "fst (readCache co t1 ?ls uid) = None"
    unfolding readCache_None readCache_Some using writeCache_writable(1) [OF w]
    by (auto simp: opt_get_def date_now_def)
qed

text \<open>
  One item of JSON values written at a clock and read a second later, at the last fresh
  millisecond, and one millisecond after it; and two items that are not JSON values,
  read a second after the write.
\<close>

theorem writeCache_readCache_roundtrip_witness:
  "writable empty_storage \<and> readable empty_storage \<and> json_value (JArr [spotify_item]) \<and>
   fst (readCache Number_nonnumeric 1762000001000
          (writeCache 1762000000000 empty_storage ''u1'' [spotify_item]) ''u1'') =
     Some [spotify_item] \<and>
   fst (readCache Number_nonnumeric 1762043200000
          (writeCache 1762000000000 empty_storage ''u1'' [spotify_item]) ''u1'') =
     Some [spotify_item] \<and>
   fst (readCache Number_nonnumeric 1762043200001
          (writeCache 1762000000000 empty_storage ''u1'' [spotify_item]) ''u1'') = None \<and>
   fst (readCache Number_nonnumeric 1762000001000
          (writeCache 0 empty_storage ''u1'' [spotify_item]) ''u1'') = None \<and>
   fst (readCache Number_nonnumeric 1762000001000
          (writeCache 1762000000000 empty_storage ''u1'' [rent_item, barter_item]) ''u1'') =
     Some [rent_item_stored, barter_item_stored]"
proof -
  have w: "writable empty_storage" and r: "readable empty_storage"
    by (simp_all add: empty_storage_def)
  have j: "json_value (JArr [spotify_item])" by code_simp
  from writeCache_readCache_roundtrip [OF w r, where co = Number_nonnumeric and uid = "''u1''"
      and items = "[spotify_item]" and ?t0.0 = 1762000000000 and ?t1.0 = 1762000001000] j
  have a: "fst (readCache Number_nonnumeric 1762000001000
          (writeCache 1762000000000 empty_storage ''u1'' [spotify_item]) ''u1'') =
     Some [spotify_item]"
    by (auto simp: CACHE_TTL_MS_def)
  from writeCache_readCache_roundtrip [OF w r, where co = Number_nonnumeric and uid = "''u1''"
      and items = "[spotify_item]" and ?t0.0 = 1762000000000 and ?t1.0 = 1762043200000] j
  have b: "fst (readCache Number_nonnumeric 1762043200000
          (writeCache 1762000000000 empty_storage ''u1'' [spotify_item]) ''u1'') =
     Some [spotify_item]"
    by (auto simp: CACHE_TTL_MS_def)
  from writeCache_readCache_roundtrip [OF w r, where co = Number_nonnumeric and uid = "''u1''"
      and items = "[spotify_item]" and ?t0.0 = 1762000000000 and ?t1.0 = 1762043200001]
  have c: "fst (readCache Number_nonnumeric 1762043200001
          (writeCache 1762000000000 empty_storage ''u1'' [spotify_item]) ''u1'') = None"
    by (simp add: CACHE_TTL_MS_def)
  from writeCache_readCache_roundtrip [OF w r, where co = Number_nonnumeric and uid = "''u1''"
      and items = "[spotify_item]" and ?t0.0 = 0 and ?t1.0 = 1762000001000]
  have d: "fst (readCache Number_nonnumeric 1762000001000
          (writeCache 0 empty_storage ''u1'' [spotify_item]) ''u1'') = None"
    by simp
  have n: "json_norm (JArr [rent_item, barter_item]) =
      JArr [rent_item_stored, barter_item_stored]" by code_simp
  from writeCache_readCache_roundtrip [OF w r, where co = Number_nonnumeric and uid = "''u1''"
      and items = "[rent_item, barter_item]" and ?t0.0 = 1762000000000 and ?t1.0 = 1762000001000]
  have e: "fst (readCache Number_nonnumeric 1762000001000
          (writeCache 1762000000000 empty_storage ''u1'' [rent_item, barter_item]) ''u1'') =
     Some [rent_item_stored, barter_item_stored]"
    unfolding n by (auto simp: CACHE_TTL_MS_def)
  from w r j a b c d e show ?thesis by blast
qed

text \<open>
  Against the claim as it stands: the normalizer gives a stream without account an item
  whose \<^verbatim>\<open>account_id\<close> is undefined, and a stream whose amount is not a number an item
  whose amount is NaN. Written and read back a second later, the first item has lost
  the property and the amount of the second is null: the list read is not the list
  written.
\<close>

theorem cached_items_differ:
  "toRecurringItems localeCompare_codeunits Number_nonnumeric lossy_payload =
     Inr [rent_item, barter_item] \<and>
   fst (readCache Number_nonnumeric 1762000001000
          (writeCache 1762000000000 empty_storage ''u1'' [rent_item, barter_item]) ''u1'') =
     Some [rent_item_stored, barter_item_stored] \<and>
   [rent_item_stored, barter_item_stored] \<noteq> [rent_item, barter_item] \<and>
   opt_get rent_item ''account_id'' = JUndefined \<and>
   map_of (case rent_item of JObj kvs \<Rightarrow> kvs | _ \<Rightarrow> []) ''account_id'' = Some JUndefined \<and>
   map_of (case rent_item_stored of JObj kvs \<Rightarrow> kvs | _ \<Rightarrow> []) ''account_id'' = None \<and>
   item_amount barter_item = JNum NaN \<and> item_amount barter_item_stored = JNull"
  by code_simp

section \<open>Activation\<close>

lemma cacheKey_not_identity_slot: "cacheKey uid \<noteq> ''user_id''"
  by (simp add: cacheKey_def)

lemma setItem_identity:
  assumes "writable ls"
  shows "setItem ls ''user_id'' v =
           (Inr (), ls\<lparr>slots := (slots ls)(''user_id'' \<mapsto> v),
                      trace := trace ls @ [SetItem ''user_id'']\<rparr>)"
  using assms by (simp add: setItem_def)

lemma readCache_after_identity:
  "fst (readCache co now (ls\<lparr>slots := (slots ls)(''user_id'' \<mapsto> v), trace := tr\<rparr>) uid)
     = fst (readCache co now ls uid)"
  by (simp add: fst_readCache cacheKey_not_identity_slot)

lemma useEffect_identity:
  assumes "uid \<noteq> []" and "writable (storage w)"
  shows "useEffect lc co now later (Some uid) resp w =
     (case fst (readCache co now (storage w) uid) of
           Some (x # xs) \<Rightarrow>
             Inr (w\<lparr>storage := after_lookup (storage w) uid,
                    page := (page w)\<lparr>subs := x # xs, linkToken := JNull,
                              message := [], loading := False\<rparr>\<rparr>)
         | _ \<Rightarrow> Inr (fetchFromApi lc co later (Some uid) resp
                       (w\<lparr>storage := after_lookup (storage w) uid\<rparr>)))"
proof -
  let ?ls1 = "(storage w)\<lparr>slots := (slots (storage w))(''user_id'' \<mapsto> Text uid),
                            trace := trace (storage w) @ [SetItem ''user_id'']\<rparr>"
  have "fst (readCache co now ?ls1 uid) = fst (readCache co now (storage w) uid)"
    by (rule readCache_after_identity)
  moreover have "snd (readCache co now ?ls1 uid) = after_lookup (storage w) uid"
    by (simp add: snd_readCache after_lookup_def)
  ultimately have cl: "readCache co now ?ls1 uid =
      (fst (readCache co now (storage w) uid), after_lookup (storage w) uid)"
    by (simp add: prod_eq_iff)
  show ?thesis
    using assms by (simp add: useEffect_def setItem_identity cl)
qed

lemma fetchFromApi_requests:
  "uid \<noteq> [] \<Longrightarrow> requests (fetchFromApi lc co later (Some uid) resp w) =
     requests w @ [JObj [(''userId'', JStr uid)]]"
  by (auto simp: fetchFromApi_def Let_def on_response_def and_then_def
           split: sum.splits response.splits)

text \<open>
  Claim C5. On an activation with an identity, once the identity is stored, if
  \<^verbatim>\<open>readCache\<close> returns a list that is not empty then the effect ends with exactly these
  items shown, no link token, no message and no loading flag, and sends no request:
  the store has seen the write of the identity and the one lookup, nothing else.
\<close>

theorem cache_hit_skips_request:
  assumes uid: "uid \<noteq> []" and wr: "writable (storage w)"
    and hit: "fst (readCache co now (storage w) uid) = Some items" and ne: "items \<noteq> []"
  shows "\<exists>w'. useEffect lc co now later (Some uid) resp w = Inr w' \<and>
           subs (page w') = items \<and> linkToken (page w') = JNull \<and>
           message (page w') = [] \<and> \<not> loading (page w') \<and>
           render (page w') = Subscriptions items \<and>
           requests w' = requests w \<and>
           storage w' = after_lookup (storage w) uid"
proof -
  from ne obtain x xs where "items = x # xs"
    by (cases items) auto
  with hit show ?thesis
    unfolding useEffect_identity [OF uid wr] by (simp add: render_def)
qed

text \<open>
  The identity \<^verbatim>\<open>u1\<close> with a fresh entry of one item: the item is shown and no request
  goes out, whatever the service would have answered.
\<close>

theorem cache_hit_skips_request_witness:
  "\<exists>w'. useEffect localeCompare_codeunits Number_nonnumeric 1762000001000 1762000002000
           (Some ''u1'') (Body link_token_body) (world_with (storage_holding fresh_entry) [])
         = Inr w' \<and>
       subs (page w') = [spotify_item] \<and> linkToken (page w') = JNull \<and>
       render (page w') = Subscriptions [spotify_item] \<and> requests w' = [] \<and>
       trace (storage w') = [SetItem ''user_id'', GetItem (cacheKey ''u1'')]"
proof -
  let ?w = "world_with (storage_holding fresh_entry) []"
  have u: "''u1'' \<noteq> []" by simp
  have wr: "writable (storage ?w)" by code_simp
  have hit: "fst (readCache Number_nonnumeric 1762000001000 (storage ?w) ''u1'') =
      Some [spotify_item]" by code_simp
  have ne: "[spotify_item] \<noteq> []" by simp
  have rq: "requests ?w = []" and tr: "trace (storage ?w) = []"
    by (simp_all add: world_with_def storage_holding_def empty_storage_def)
  from cache_hit_skips_request [OF u wr hit ne,
      of localeCompare_codeunits 1762000002000 "Body link_token_body"]
  obtain w' where
    "useEffect localeCompare_codeunits Number_nonnumeric 1762000001000 1762000002000
           (Some ''u1'') (Body link_token_body) ?w = Inr w'"
    "subs (page w') = [spotify_item]" "linkToken (page w') = JNull"
    "render (page w') = Subscriptions [spotify_item]" "requests w' = requests ?w"
    "storage w' = after_lookup (storage ?w) ''u1''"
    by blast
  with rq tr show ?thesis
    by (simp add: after_lookup_def)
qed

text \<open>
  Claim C10. On an activation with an identity, once the identity is stored, if the
  entry of the identity has an empty \<^verbatim>\<open>items\<close> array and a numeric timestamp other than
  0 that is no older than the time to live, then \<^verbatim>\<open>readCache\<close> returns the empty list
  and the effect still sends the one request.
\<close>

theorem empty_cache_hit_requests:
  assumes uid: "uid \<noteq> []"
    and wr: "writable (storage w)" and rd: "readable (storage w)"
    and entry: "slots (storage w) (cacheKey uid) = Some (JsonText obj)"
    and items: "opt_get obj ''items'' = JArr []"
    and ts: "opt_get obj ''ts'' = JNum (Fin (of_int t))" and t0: "t \<noteq> 0"
    and fresh: "now - t \<le> CACHE_TTL_MS"
  shows "fst (readCache co now (storage w) uid) = Some [] \<and>
         (\<exists>w'. useEffect lc co now later (Some uid) resp w = Inr w' \<and>
               requests w' = requests w @ [JObj [(''userId'', JStr uid)]])"
proof -
  from fresh have "\<not> js_gt (js_sub (date_now now) (Fin (of_int t))) (date_now CACHE_TTL_MS)"
    by (simp add: elapsed_exceeds)
  then have r: "fst (readCache co now (storage w) uid) = Some []"
    unfolding readCache_Some using rd entry items ts t0 by simp
  then show ?thesis
    unfolding useEffect_identity [OF uid wr]
    by (simp add: fetchFromApi_requests [OF uid])
qed

text \<open>The identity \<^verbatim>\<open>u1\<close> with a fresh entry of no items: the request goes out.\<close>

theorem empty_cache_hit_requests_witness:
  "fst (readCache Number_nonnumeric 1762000001000 (storage_holding empty_entry) ''u1'') =
     Some [] \<and>
   (\<exists>w'. useEffect localeCompare_codeunits Number_nonnumeric 1762000001000 1762000002000
           (Some ''u1'') (Body link_token_body) (world_with (storage_holding empty_entry) [])
         = Inr w' \<and>
       requests w' = [JObj [(''userId'', JStr ''u1'')]])"
proof -
  let ?w = "world_with (storage_holding empty_entry) []"
  have u: "''u1'' \<noteq> []" by simp
  have wr: "writable (storage ?w)" and rd: "readable (storage ?w)" by code_simp+
  have st: "storage ?w = storage_holding empty_entry"
    by (simp add: world_with_def)
  have e: "slots (storage ?w) (cacheKey ''u1'') = Some (JsonText empty_entry)"
    by (simp add: world_with_def storage_holding_def)
  have i: "opt_get empty_entry ''items'' = JArr []" by code_simp
  have ts: "opt_get empty_entry ''ts'' = JNum (Fin (of_int 1762000000000))" by code_simp
  have t0: "(1762000000000 :: int) \<noteq> 0" by simp
  have f: "(1762000001000 :: int) - 1762000000000 \<le> CACHE_TTL_MS"
    by (simp add: CACHE_TTL_MS_def)
  have rq: "requests ?w = []"
    by (simp add: world_with_def)
  from empty_cache_hit_requests [OF u wr rd e i ts t0 f,
      of Number_nonnumeric localeCompare_codeunits 1762000002000 "Body link_token_body"]
  show ?thesis
    unfolding st rq by simp
qed

text \<open>
  Claim C7, as amended. On an activation without identity (none, or the empty string)
  the effect ends without exception; it writes \<^verbatim>\<open>Missing user_id\<close> to the console,
  clears the loading flag and changes nothing else: no call on the store, no request,
  no message. The text about the identity goes to the console only: from the initial
  page the panel shows the default text \<^verbatim>\<open>Ready.\<close>
\<close>

theorem missing_identity_ends_activation:
  assumes "\<not> has_identity userId"
  shows "\<exists>w'. useEffect lc co now later userId resp w = Inr w' \<and>
           page w' = (page w)\<lparr>loading := False\<rparr> \<and>
           storage w' = storage w \<and> requests w' = requests w \<and>
           console w' = console w @ [''Missing user_id''] \<and>
           (page w = initial_page \<longrightarrow> render (page w') = MessagePanel ''Ready.'')"
  using assms
  by (auto simp: useEffect_def has_identity_def render_def initial_page_def
           split: option.splits)

text \<open>No identity on the first activation, over a store that holds a fresh entry.\<close>

theorem missing_identity_ends_activation_witness:
  "\<not> has_identity None \<and>
   (\<exists>w'. useEffect localeCompare_codeunits Number_nonnumeric 1762000001000 1762000002000
           None (Body link_token_body) (world_with (storage_holding fresh_entry) [])
         = Inr w' \<and>
       trace (storage w') = [] \<and> requests w' = [] \<and> console w' = [''Missing user_id''] \<and>
       render (page w') = MessagePanel ''Ready.'')"
proof -
  let ?w = "world_with (storage_holding fresh_entry) []"
  have h: "\<not> has_identity None"
    by (simp add: has_identity_def)
  have i: "page ?w = initial_page" and rq: "requests ?w = []" and c: "console ?w = []"
    and tr: "trace (storage ?w) = []"
    by (simp_all add: world_with_def initial_page_def storage_holding_def empty_storage_def)
  from missing_identity_ends_activation [OF h,
      of localeCompare_codeunits Number_nonnumeric 1762000001000 1762000002000
         "Body link_token_body" ?w]
  obtain w' where
    "useEffect localeCompare_codeunits Number_nonnumeric 1762000001000 1762000002000
           None (Body link_token_body) ?w = Inr w'"
    "storage w' = storage ?w" "requests w' = requests ?w"
    "console w' = console ?w @ [''Missing user_id'']"
    "page ?w = initial_page \<longrightarrow> render (page w') = MessagePanel ''Ready.''"
    by blast
  with h i rq c tr show ?thesis
    by simp
qed

text \<open>
  Against the claim as it stands: after the first activation without identity the page
  shows the panel with the text \<^verbatim>\<open>Ready.\<close>, and the message of the state is empty.
\<close>

theorem missing_identity_shows_ready:
  "(case useEffect localeCompare_codeunits Number_nonnumeric 1762000001000 1762000002000
           None Unreachable (world_with empty_storage [])
    of Inr w' \<Rightarrow> Some (render (page w'), message (page w'), console w')
     | Inl e \<Rightarrow> None)
   = Some (MessagePanel ''Ready.'', [], [''Missing user_id''])"
  by code_simp

section \<open>The answer of the service\<close>

text \<open>
  Claim C8. When the request of an identity is answered with the tag \<^verbatim>\<open>link_token\<close>, the
  link token of the state becomes the token of the answer and the items shown stay
  exactly as they were; the message is cleared, loading ends and the store is not
  touched. The page then shows the items if there are any, else the connect panel with
  the token if the token is truthy.
\<close>

theorem link_token_keeps_items:
  assumes uid: "uid \<noteq> []"
    and tag: "opt_get (opt_get data ''response_object'') ''tag'' = JStr ''link_token''"
  shows "(let w' = fetchFromApi lc co later (Some uid) (Body data) w;
              token = opt_get (opt_get (opt_get data ''response_object'') ''data'') ''link_token''
          in subs (page w') = subs (page w) \<and> linkToken (page w') = token \<and>
             message (page w') = [] \<and> \<not> loading (page w') \<and> storage w' = storage w \<and>
             render (page w') =
               (if subs (page w) \<noteq> [] then Subscriptions (subs (page w))
                else if truthy token then ConnectYourBank token
                else MessagePanel ''Ready.''))"
  using uid tag by (simp add: fetchFromApi_def on_response_def Let_def render_def)

text \<open>
  The token \<^verbatim>\<open>tok1\<close> arrives while one item is shown: the item stays. It arrives while
  nothing is shown: the connect panel appears.
\<close>

theorem link_token_keeps_items_witness:
  "subs (page (fetchFromApi localeCompare_codeunits Number_nonnumeric 1762000002000
        (Some ''u1'') (Body link_token_body) (world_with empty_storage [spotify_item])))
     = [spotify_item] \<and>
   linkToken (page (fetchFromApi localeCompare_codeunits Number_nonnumeric 1762000002000
        (Some ''u1'') (Body link_token_body) (world_with empty_storage [spotify_item])))
     = JStr ''tok1'' \<and>
   render (page (fetchFromApi localeCompare_codeunits Number_nonnumeric 1762000002000
        (Some ''u1'') (Body link_token_body) (world_with empty_storage [spotify_item])))
     = Subscriptions [spotify_item] \<and>
   render (page (fetchFromApi localeCompare_codeunits Number_nonnumeric 1762000002000
        (Some ''u1'') (Body link_token_body) (world_with empty_storage [])))
     = ConnectYourBank (JStr ''tok1'')"
proof -
  have u: "''u1'' \<noteq> []" by simp
  have tag: "opt_get (opt_get link_token_body ''response_object'') ''tag'' = JStr ''link_token''"
    by code_simp
  have tok: "opt_get (opt_get (opt_get link_token_body ''response_object'') ''data'')
      ''link_token'' = JStr ''tok1''"
    by code_simp
  have s: "subs (page (world_with empty_storage xs)) = xs" for xs
    by (simp add: world_with_def)
  from link_token_keeps_items [OF u tag, of localeCompare_codeunits Number_nonnumeric
      1762000002000 "world_with empty_storage [spotify_item]"]
    link_token_keeps_items [OF u tag, of localeCompare_codeunits Number_nonnumeric
      1762000002000 "world_with empty_storage []"]
  show ?thesis
    unfolding tok s Let_def by simp
qed

end
